theory Spec2Isabelle
  imports Complex_Main
begin

section \<open>Common ground: Python exceptions and numbers\<close>

text \<open>
  The three modules of the pipeline (\<^verbatim>\<open>audio_processor.py\<close>, \<^verbatim>\<open>generator.py\<close>,
  \<^verbatim>\<open>bvh_export.py\<close>) compute with Python floats and NumPy arrays of floats. The
  embedding reads a float as a real number: \<open>+\<close>, \<open>*\<close>, \<open>/\<close>, \<open>sin\<close> and \<open>pi\<close> are the
  exact operations, and IEEE rounding is not modelled, with one exception: the frame
  count of the synchronizer, where the code truncates a float to an int and the
  rounding decides the result, is computed with the rounding of doubles. What the code
  does with the numbers (which cells it writes, in which order it prints them, where it
  can raise) is modelled as written.

  An exception is a value of type \<open>error\<close>; a function that can raise returns
  \<open>error + 'a\<close>, with \<open>Inl\<close> for the exception.
\<close>

datatype error = IndexError | ValueError | ZeroDivisionError | OSError

definition thenE :: "error + 'a \<Rightarrow> ('a \<Rightarrow> error + 'b) \<Rightarrow> error + 'b" where
  "thenE r k = (case r of Inl e \<Rightarrow> Inl e | Inr a \<Rightarrow> k a)"

text \<open>
  Statements that each yield a list of written lines, run from left to right: the first
  exception ends the run.
\<close>

fun collect :: "(error + 'a list) list \<Rightarrow> error + 'a list" where
  "collect [] = Inr []"
| "collect (r # rs) =
     (case r of
        Inl e \<Rightarrow> Inl e
      | Inr a \<Rightarrow> (case collect rs of Inl e \<Rightarrow> Inl e | Inr b \<Rightarrow> Inr (a @ b)))"

text \<open>A loop that yields one result per pass, or the first exception.\<close>

fun sequenceE :: "(error + 'a) list \<Rightarrow> error + 'a list" where
  "sequenceE [] = Inr []"
| "sequenceE (r # rs) =
     (case r of
        Inl e \<Rightarrow> Inl e
      | Inr a \<Rightarrow> (case sequenceE rs of Inl e \<Rightarrow> Inl e | Inr b \<Rightarrow> Inr (a # b)))"

text \<open>\<^verbatim>\<open>sep.join(parts)\<close>.\<close>

fun join :: "string \<Rightarrow> string list \<Rightarrow> string" where
  "join sep [] = []"
| "join sep [x] = x"
| "join sep (x # y # ys) = x @ sep @ join sep (y # ys)"

text \<open>\<^verbatim>\<open>str(n)\<close> of a non-negative Python int: its decimal digits.\<close>

definition digit_char :: "nat \<Rightarrow> char" where
  "digit_char d = char_of (48 + d)"

fun str_nat :: "nat \<Rightarrow> string" where
  "str_nat n = (if n < 10 then [digit_char n] else str_nat (n div 10) @ [digit_char (n mod 10)])"

declare str_nat.simps [simp del]

text \<open>
  A NumPy array is its shape and its cells. The code reads and writes cells by index;
  an index outside the shape raises IndexError.
\<close>

record ndarray3 =
  shape3 :: "nat \<times> nat \<times> nat"
  item3 :: "nat \<Rightarrow> nat \<Rightarrow> nat \<Rightarrow> real"

record ndarray2 =
  shape2 :: "nat \<times> nat"
  item2 :: "nat \<Rightarrow> nat \<Rightarrow> real"

definition zeros3 :: "nat \<times> nat \<times> nat \<Rightarrow> ndarray3" where
  "zeros3 sh = \<lparr>shape3 = sh, item3 = (\<lambda>i j k. 0)\<rparr>"

definition zeros2 :: "nat \<times> nat \<Rightarrow> ndarray2" where
  "zeros2 sh = \<lparr>shape2 = sh, item2 = (\<lambda>i j. 0)\<rparr>"

text \<open>\<^verbatim>\<open>a[i, j, k] = v\<close> and \<^verbatim>\<open>a[i, j] = v\<close>.\<close>

definition setitem3 :: "ndarray3 \<Rightarrow> nat \<times> nat \<times> nat \<Rightarrow> real \<Rightarrow> error + ndarray3" where
  "setitem3 a idx v =
     (case (shape3 a, idx) of ((n0, n1, n2), (i, j, k)) \<Rightarrow>
        if i < n0 \<and> j < n1 \<and> k < n2
        then Inr (a\<lparr>item3 := (\<lambda>i' j' k'. if i' = i \<and> j' = j \<and> k' = k then v
                                         else item3 a i' j' k')\<rparr>)
        else Inl IndexError)"

definition setitem2 :: "ndarray2 \<Rightarrow> nat \<times> nat \<Rightarrow> real \<Rightarrow> error + ndarray2" where
  "setitem2 a idx v =
     (case (shape2 a, idx) of ((n0, n1), (i, j)) \<Rightarrow>
        if i < n0 \<and> j < n1
        then Inr (a\<lparr>item2 := (\<lambda>i' j'. if i' = i \<and> j' = j then v else item2 a i' j')\<rparr>)
        else Inl IndexError)"

text \<open>\<^verbatim>\<open>a[i, :, :] *= c\<close>: every cell of the sub-array \<open>i\<close> is multiplied by \<open>c\<close>.\<close>

definition imul_frame :: "ndarray3 \<Rightarrow> nat \<Rightarrow> real \<Rightarrow> error + ndarray3" where
  "imul_frame a i c =
     (if i < fst (shape3 a)
      then Inr (a\<lparr>item3 := (\<lambda>i' j k. if i' = i then item3 a i' j k * c else item3 a i' j k)\<rparr>)
      else Inl IndexError)"

text \<open>\<^verbatim>\<open>xs[i]\<close> on a one-dimensional array, for an index that is not negative.\<close>

definition getitem1 :: "real list \<Rightarrow> nat \<Rightarrow> error + real" where
  "getitem1 xs i = (if i < length xs then Inr (xs ! i) else Inl IndexError)"

section \<open>The skeleton tables of \<^verbatim>\<open>BVHExporter\<close>\<close>

definition JOINT_NAMES :: "string list" where
  "JOINT_NAMES =
    [''Pelvis'', ''L_Hip'', ''R_Hip'', ''Spine1'', ''L_Knee'', ''R_Knee'', ''Spine2'',
     ''L_Ankle'', ''R_Ankle'', ''Spine3'', ''L_Foot'', ''R_Foot'', ''Neck'', ''L_Collar'',
     ''R_Collar'', ''Head'', ''L_Shoulder'', ''R_Shoulder'', ''L_Elbow'', ''R_Elbow'',
     ''L_Wrist'', ''R_Wrist'', ''L_Hand'', ''R_Hand'']"

definition PARENT_INDICES :: "int list" where
  "PARENT_INDICES =
    [-1, 0, 0, 0, 1, 2, 3, 4, 5, 6, 7, 8, 9, 9, 9, 12, 13, 14, 16, 17, 18, 19, 20, 21]"

text \<open>
  \<^verbatim>\<open>_get_joint_offset\<close>: a dictionary lookup with the default \<open>[0.0, 0.0, 0.0]\<close> for an
  index that is not a key.
\<close>

definition offsets :: "(nat \<times> real list) list" where
  "offsets =
    [(0, [0.0, 0.0, 0.0]), (1, [0.1, -0.05, 0.0]), (2, [-0.1, -0.05, 0.0]),
     (3, [0.0, 0.1, 0.0]), (4, [0.0, -0.4, 0.0]), (5, [0.0, -0.4, 0.0]),
     (6, [0.0, 0.15, 0.0]), (7, [0.0, -0.4, 0.0]), (8, [0.0, -0.4, 0.0]),
     (9, [0.0, 0.15, 0.0]), (10, [0.0, -0.1, 0.1]), (11, [0.0, -0.1, 0.1]),
     (12, [0.0, 0.15, 0.0]), (13, [0.15, 0.05, 0.0]), (14, [-0.15, 0.05, 0.0]),
     (15, [0.0, 0.15, 0.0]), (16, [0.2, 0.0, 0.0]), (17, [-0.2, 0.0, 0.0]),
     (18, [0.25, 0.0, 0.0]), (19, [-0.25, 0.0, 0.0]), (20, [0.25, 0.0, 0.0]),
     (21, [-0.25, 0.0, 0.0]), (22, [0.1, 0.0, 0.0]), (23, [-0.1, 0.0, 0.0])]"

definition get_joint_offset :: "nat \<Rightarrow> real list" where
  "get_joint_offset joint_idx =
     (case map_of offsets joint_idx of Some v \<Rightarrow> v | None \<Rightarrow> [0.0, 0.0, 0.0])"

text \<open>
  The list comprehension of \<^verbatim>\<open>_write_joint\<close>:
  \<^verbatim>\<open>[i for i, parent in enumerate(self.PARENT_INDICES) if parent == joint_idx]\<close>.
\<close>

definition children :: "nat \<Rightarrow> nat list" where
  "children joint_idx =
     filter (\<lambda>i. PARENT_INDICES ! i = int joint_idx) [0..<length PARENT_INDICES]"

section \<open>The hierarchy writer\<close>

text \<open>
  A file is the list of the lines written to it; every \<^verbatim>\<open>file.write\<close> of the exporter
  writes one line and its newline. \<open>fmt\<close> stands for Python's \<^verbatim>\<open>format(v, '.6f')\<close> on a
  float, which is not part of the repository: every statement below holds for any
  \<open>fmt\<close>.
\<close>

definition indent_of :: "nat \<Rightarrow> string" where
  "indent_of indent_level = concat (replicate indent_level ''  '')"

definition root_channels :: string where
  "root_channels = ''  CHANNELS 6 Xposition Yposition Zposition Zrotation Xrotation Yrotation''"

definition joint_channels :: string where
  "joint_channels = ''  CHANNELS 3 Zrotation Xrotation Yrotation''"

definition joint_head :: "(real \<Rightarrow> string) \<Rightarrow> nat \<Rightarrow> string \<Rightarrow> string list" where
  "joint_head fmt joint_idx indent =
     (let joint_name = JOINT_NAMES ! joint_idx;
          offset = get_joint_offset joint_idx
      in [indent @ (if joint_idx = 0 then ''ROOT '' else ''JOINT '') @ joint_name,
          indent @ ''{'',
          indent @ ''  OFFSET '' @ fmt (offset ! 0) @ '' '' @ fmt (offset ! 1) @ '' ''
            @ fmt (offset ! 2),
          indent @ (if joint_idx = 0 then root_channels else joint_channels)])"

definition end_site :: "string \<Rightarrow> string list" where
  "end_site indent =
     [indent @ ''  End Site'',
      indent @ ''  {'',
      indent @ ''    OFFSET 0.0 0.0 0.0'',
      indent @ ''  }'']"

lemma parent_below:
  "i < length PARENT_INDICES \<Longrightarrow> PARENT_INDICES ! i < int i"
proof -
  have "list_all (\<lambda>i. PARENT_INDICES ! i < int i) [0..<length PARENT_INDICES]"
    by (simp add: PARENT_INDICES_def upt_rec)
  then show "i < length PARENT_INDICES \<Longrightarrow> PARENT_INDICES ! i < int i"
    by (simp add: list_all_iff)
qed

lemma children_range:
  "c \<in> set (children j) \<Longrightarrow> j < c \<and> c < length PARENT_INDICES"
  using parent_below [of c] by (auto simp: children_def)

text \<open>
  \<^verbatim>\<open>_write_joint\<close>. \<^verbatim>\<open>JOINT_NAMES[joint_idx]\<close> raises IndexError beyond the table; the
  recursion visits the children in the order of the comprehension.
\<close>

function write_joint :: "(real \<Rightarrow> string) \<Rightarrow> nat \<Rightarrow> nat \<Rightarrow> error + string list" where
  "write_joint fmt joint_idx indent_level =
     (if length JOINT_NAMES \<le> joint_idx then Inl IndexError
      else
        thenE
          (if children joint_idx \<noteq> []
           then collect (map (\<lambda>child_idx. write_joint fmt child_idx (indent_level + 1))
                  (children joint_idx))
           else Inr (end_site (indent_of indent_level)))
          (\<lambda>body. Inr (joint_head fmt joint_idx (indent_of indent_level) @ body
                        @ [indent_of indent_level @ ''}''])))"
  by pat_completeness auto
termination
proof (relation "measure (\<lambda>(fmt, joint_idx, indent_level). length PARENT_INDICES - joint_idx)")
  show "wf (measure (\<lambda>(fmt, joint_idx, indent_level). length PARENT_INDICES - joint_idx))"
    by simp
next
  fix fmt :: "real \<Rightarrow> string" and joint_idx indent_level child_idx :: nat
  assume "child_idx \<in> set (children joint_idx)"
  then have "joint_idx < child_idx \<and> child_idx < length PARENT_INDICES"
    by (rule children_range)
  then show "((fmt, child_idx, indent_level + 1), fmt, joint_idx, indent_level)
      \<in> measure (\<lambda>(fmt, joint_idx, indent_level). length PARENT_INDICES - joint_idx)"
    by auto
qed

declare write_joint.simps [simp del]

definition write_hierarchy :: "(real \<Rightarrow> string) \<Rightarrow> error + string list" where
  "write_hierarchy fmt = thenE (write_joint fmt 0 0) (\<lambda>ls. Inr (''HIERARCHY'' # ls))"

section \<open>The motion writer and \<^verbatim>\<open>export\<close>\<close>

text \<open>
  \<^verbatim>\<open>BVHExporter.__init__\<close>: \<^verbatim>\<open>1.0 / fps\<close> raises ZeroDivisionError for \<open>fps = 0\<close>. A
  negative \<open>fps\<close> is outside the type.
\<close>

record exporter =
  fps :: nat
  frame_time :: real

definition BVHExporter :: "nat \<Rightarrow> error + exporter" where
  "BVHExporter fps0 =
     (if fps0 = 0 then Inl ZeroDivisionError
      else Inr \<lparr>fps = fps0, frame_time = 1 / real fps0\<rparr>)"

text \<open>
  One pass of the frame loop of \<^verbatim>\<open>_write_motion\<close>, before formatting: the row
  \<^verbatim>\<open>translations[frame_idx]\<close> (IndexError when the array has no such row), then
  \<^verbatim>\<open>motion_data[frame_idx, joint_idx, :]\<close> for \<^verbatim>\<open>joint_idx in range(motion_data.shape[1])\<close>.
\<close>

definition frame_data :: "ndarray3 \<Rightarrow> ndarray2 \<Rightarrow> nat \<Rightarrow> error + real list" where
  "frame_data motion_data translations frame_idx =
     (case (shape3 motion_data, shape2 translations) of ((n0, n1, n2), (t0, t1)) \<Rightarrow>
        if t0 \<le> frame_idx then Inl IndexError
        else Inr (map (item2 translations frame_idx) [0..<t1]
                  @ concat (map (\<lambda>joint_idx. map (item3 motion_data frame_idx joint_idx) [0..<n2])
                      [0..<n1])))"

definition write_motion ::
  "(real \<Rightarrow> string) \<Rightarrow> exporter \<Rightarrow> ndarray3 \<Rightarrow> ndarray2 \<Rightarrow> error + string list" where
  "write_motion fmt self motion_data translations =
     (let num_frames = fst (shape3 motion_data)
      in thenE
           (sequenceE (map (\<lambda>frame_idx.
               thenE (frame_data motion_data translations frame_idx)
                 (\<lambda>vals. Inr (join '' '' (map fmt vals))))
             [0..<num_frames]))
           (\<lambda>frame_lines.
              Inr ([''MOTION'',
                    ''Frames: '' @ str_nat num_frames,
                    ''Frame Time: '' @ fmt (frame_time self)] @ frame_lines)))"

text \<open>
  What \<^verbatim>\<open>export\<close> acts on: the files (a path's lines, if the file exists), which paths
  can be opened for writing, and the lines printed so far. The printed lines are kept
  as messages; the text of each is in the source.
\<close>

datatype message =
    JointCountWarning nat
  | ExportingBanner
  | FramesInfo nat
  | FpsInfo nat
  | DurationInfo real
  | ExportedTo string

record world =
  files :: "string \<Rightarrow> string list option"
  writable :: "string \<Rightarrow> bool"
  printed :: "message list"

definition say :: "message \<Rightarrow> world \<Rightarrow> world" where
  "say m w = w\<lparr>printed := printed w @ [m]\<rparr>"

text \<open>
  \<^verbatim>\<open>export\<close>. The warning is all the code does about a joint count other than 24.
  \<^verbatim>\<open>num_frames / self.fps\<close> in the third print raises ZeroDivisionError for \<open>fps = 0\<close>;
  \<^verbatim>\<open>open(output_path, 'w')\<close> raises OSError for a path that cannot be written, and
  otherwise empties the file.
\<close>

definition export ::
  "(real \<Rightarrow> string) \<Rightarrow> exporter \<Rightarrow> ndarray3 \<Rightarrow> string \<Rightarrow> ndarray2 option \<Rightarrow> world
     \<Rightarrow> error + world" where
  "export fmt self motion_data output_path translations w =
     (case shape3 motion_data of (num_frames, num_joints, n2) \<Rightarrow>
        let w1 = (if num_joints \<noteq> 24 then say (JointCountWarning num_joints) w else w);
            translations' =
              (case translations of None \<Rightarrow> zeros2 (num_frames, 3) | Some t \<Rightarrow> t);
            w2 = say (FpsInfo (fps self)) (say (FramesInfo num_frames) (say ExportingBanner w1))
        in if fps self = 0 then Inl ZeroDivisionError
           else
             let w3 = say (DurationInfo (real num_frames / real (fps self))) w2
             in if \<not> writable w3 output_path then Inl OSError
                else
                  thenE (write_hierarchy fmt) (\<lambda>hierarchy.
                  thenE (write_motion fmt self motion_data translations') (\<lambda>motion.
                    Inr (say (ExportedTo output_path)
                           (w3\<lparr>files := (files w3)(output_path \<mapsto> hierarchy @ motion)\<rparr>)))))"

section \<open>Reading a hierarchy back: brace blocks\<close>

text \<open>
  The block structure of a written hierarchy, read from the text alone: a line \<open>{\<close>
  opens a block whose title is the line before it, a line \<open>}\<close> closes the innermost
  open block and makes it a sub-block of the block around it, and any other line is a
  field of the innermost open block. Indentation is dropped. A block is lexically
  nested inside another exactly when it is among that block's sub-blocks here.
\<close>

datatype block = Block (title: string) (block_fields: "string list") (subs: "block list")

type_synonym frame = "string \<times> string list \<times> block list"

definition strip_indent :: "string \<Rightarrow> string" where
  "strip_indent l = dropWhile (\<lambda>c. c = CHR '' '') l"

fun read_line :: "string \<Rightarrow> frame list \<Rightarrow> frame list option" where
  "read_line l [] = None"
| "read_line l ((t, fs, bs) # stack) =
     (if strip_indent l = ''{''
      then (if fs = [] then None else Some ((last fs, [], []) # (t, butlast fs, bs) # stack))
      else if strip_indent l = ''}''
      then (case stack of
              [] \<Rightarrow> None
            | (t', fs', bs') # stack' \<Rightarrow> Some ((t', fs', bs' @ [Block t fs bs]) # stack'))
      else Some ((t, fs @ [strip_indent l], bs) # stack))"

fun read_lines :: "string list \<Rightarrow> frame list \<Rightarrow> frame list option" where
  "read_lines [] stack = Some stack"
| "read_lines (l # ls) stack =
     (case read_line l stack of None \<Rightarrow> None | Some stack' \<Rightarrow> read_lines ls stack')"

text \<open>
  A whole text is well bracketed when every block is closed at its end; it then reads as
  its top-level fields and its top-level blocks.
\<close>

definition read_blocks :: "string list \<Rightarrow> (string list \<times> block list) option" where
  "read_blocks ls =
     (case read_lines ls [([], [], [])] of
        Some [(t, fs, bs)] \<Rightarrow> Some (fs, bs)
      | _ \<Rightarrow> None)"

text \<open>The blocks of a block in the order in which the text opens them.\<close>

fun blocks_of :: "block \<Rightarrow> block list" where
  "blocks_of (Block t fs bs) = Block t fs bs # concat (map blocks_of bs)"

definition joint_block :: "string \<Rightarrow> block list \<Rightarrow> block option" where
  "joint_block joint_name bs =
     find (\<lambda>b. title b = ''ROOT '' @ joint_name \<or> title b = ''JOINT '' @ joint_name)
       (concat (map blocks_of bs))"

section \<open>The synchronizer of \<^verbatim>\<open>AudioProcessor\<close>\<close>

text \<open>
  A feature matrix is the list of its rows (channels); the program's matrices have at
  least one row (128, 12 and 1), and \<^verbatim>\<open>shape[1]\<close> is the length of a row.
\<close>

type_synonym matrix = "real list list"

definition ncols :: "matrix \<Rightarrow> nat" where
  "ncols m = (case m of [] \<Rightarrow> 0 | r # rs \<Rightarrow> length r)"

text \<open>
  The two library functions \<^verbatim>\<open>_resample_feature\<close> calls, as far as the call uses them.

  \<^verbatim>\<open>np.linspace(0, 1, n)\<close>: \<open>n\<close> evenly spaced points from 0 to 1, the single point 0 for
  \<open>n = 1\<close>, no point for \<open>n = 0\<close>.

  \<^verbatim>\<open>interp1d(x, y, kind='linear')\<close>: the constructor raises ValueError when \<open>x\<close> and \<open>y\<close>
  differ in length or hold no sample at all; calling the interpolant raises ValueError
  when a requested point lies outside \<open>[x[0], x[-1]]\<close> (\<^verbatim>\<open>bounds_error\<close> is on without a
  fill value), and otherwise interpolates linearly between the neighbouring samples.
\<close>

definition linspace01 :: "nat \<Rightarrow> real list" where
  "linspace01 n =
     (if n = 0 then [] else if n = 1 then [0]
      else map (\<lambda>i. real i / real (n - 1)) [0..<n])"

fun linear_at :: "real list \<Rightarrow> real list \<Rightarrow> real \<Rightarrow> real" where
  "linear_at (x0 # x1 # xs) (y0 # y1 # ys) v =
     (if v \<le> x1 then y0 + (v - x0) * (y1 - y0) / (x1 - x0)
      else linear_at (x1 # xs) (y1 # ys) v)"
| "linear_at xs (y0 # ys) v = y0"
| "linear_at xs [] v = 0"

definition interp1d :: "real list \<Rightarrow> real list \<Rightarrow> error + (real list \<times> real list)" where
  "interp1d x y =
     (if length x \<noteq> length y then Inl ValueError
      else if length x < 1 then Inl ValueError
      else Inr (x, y))"

definition interp1d_call :: "real list \<times> real list \<Rightarrow> real list \<Rightarrow> error + real list" where
  "interp1d_call f x_new =
     (case f of (x, y) \<Rightarrow>
        if list_ex (\<lambda>v. v < hd x \<or> last x < v) x_new then Inl ValueError
        else Inr (map (linear_at x y) x_new))"

text \<open>
  \<^verbatim>\<open>_resample_feature\<close>: one interpolant per row, each evaluated at the target points.
  The code has no check of \<^verbatim>\<open>current_length\<close> of its own.
\<close>

definition resample_feature :: "matrix \<Rightarrow> nat \<Rightarrow> error + matrix" where
  "resample_feature feature target_length =
     (let current_length = ncols feature;
          x_current = linspace01 current_length;
          x_target = linspace01 target_length
      in sequenceE (map (\<lambda>row. thenE (interp1d x_current row) (\<lambda>f. interp1d_call f x_target))
           feature))"

text \<open>
  The dictionary of features: \<^verbatim>\<open>sync_to_fps\<close> fills \<open>mel\<close>, \<open>chroma\<close> and \<open>onset\<close>;
  \<^verbatim>\<open>extract_features\<close> adds the other keys; the generator reads \<open>tempo\<close>, \<open>beats\<close> and
  \<open>onset\<close> with \<^verbatim>\<open>dict.get\<close> and a default.
\<close>

record features =
  mel :: matrix
  chroma :: matrix
  onset :: "real list option"
  tempo :: "real option"
  beats :: "nat list option"
  duration :: "real option"

text \<open>
  Python's \<^verbatim>\<open>float\<close> is the IEEE 754 double, and an operation on floats returns the double
  nearest to its exact result, the one with the even significand when two are equally
  near. \<open>rne y\<close> is the integer nearest to \<open>y\<close> with that rule for ties, and \<open>fl x\<close> the
  nearest number with a significand of 53 bits. The exponent range of a double is not
  part of \<open>fl\<close>: the quantities below stay inside it while the sample rate, the hop length,
  the frame rate and the number of columns are below 2 to the power 53.
\<close>

definition rne :: "real \<Rightarrow> int" where
  "rne y =
     (let f = \<lfloor>y\<rfloor>
      in if y - of_int f < 1 / 2 then f
         else if 1 / 2 < y - of_int f then f + 1
         else if even f then f else f + 1)"

definition fl :: "real \<Rightarrow> real" where
  "fl x =
     (if x = 0 then 0
      else let s = 2 powr of_int (\<lfloor>log 2 \<bar>x\<bar>\<rfloor> - 52)
           in of_int (rne (x / s)) * s)"

text \<open>
  The frame count of \<^verbatim>\<open>sync_to_fps\<close>, operation by operation.
  \<^verbatim>\<open>audio_sr / hop_length\<close> divides two ints: the quotient, rounded once.
  \<^verbatim>\<open>num_feature_frames / feature_fps\<close> converts the int to a float and divides;
  \<^verbatim>\<open>duration * self.target_fps\<close> converts the int and multiplies. \<^verbatim>\<open>int\<close> drops the
  fraction of the product, which is not negative. Both divisions raise ZeroDivisionError
  on a zero divisor. Sample rate, hop length and frame rate are not negative.
\<close>

definition num_motion_frames :: "nat \<Rightarrow> nat \<Rightarrow> nat \<Rightarrow> nat \<Rightarrow> error + nat" where
  "num_motion_frames target_fps num_feature_frames audio_sr hop_length =
     (if hop_length = 0 then Inl ZeroDivisionError
      else
        let feature_fps = fl (real audio_sr / real hop_length)
        in if feature_fps = 0 then Inl ZeroDivisionError
           else
             let duration = fl (fl (real num_feature_frames) / feature_fps)
             in Inr (nat \<lfloor>fl (duration * fl (real target_fps))\<rfloor>))"

definition sync_to_fps ::
  "nat \<Rightarrow> matrix \<Rightarrow> matrix \<Rightarrow> real list \<Rightarrow> nat \<Rightarrow> nat \<Rightarrow> error + features" where
  "sync_to_fps target_fps mel0 chroma0 onset0 audio_sr hop_length =
     thenE (num_motion_frames target_fps (ncols mel0) audio_sr hop_length) (\<lambda>n.
     thenE (resample_feature mel0 n) (\<lambda>mel_resampled.
     thenE (resample_feature chroma0 n) (\<lambda>chroma_resampled.
     thenE (resample_feature [onset0] n) (\<lambda>onset_resampled.
       Inr \<lparr>mel = mel_resampled, chroma = chroma_resampled,
            onset = Some (hd onset_resampled), tempo = None, beats = None,
            duration = None\<rparr>))))"

section \<open>The baseline generator\<close>

record motion =
  rotations :: ndarray3
  translations' :: ndarray2
  num_frames :: nat
  motion_fps :: nat

text \<open>\<^verbatim>\<open>self.config\<close>, as far as \<^verbatim>\<open>generate\<close> reads it.\<close>

record config =
  num_joints :: nat

definition default_config :: config where
  "default_config = \<lparr>num_joints = 24\<rparr>"

text \<open>A run of cell assignments to one array, in the order written.\<close>

fun assign3 :: "((nat \<times> nat \<times> nat) \<times> real) list \<Rightarrow> ndarray3 \<Rightarrow> error + ndarray3" where
  "assign3 [] a = Inr a"
| "assign3 ((idx, v) # rest) a = thenE (setitem3 a idx v) (assign3 rest)"

fun assign2 :: "((nat \<times> nat) \<times> real) list \<Rightarrow> ndarray2 \<Rightarrow> error + ndarray2" where
  "assign2 [] a = Inr a"
| "assign2 ((idx, v) # rest) a = thenE (setitem2 a idx v) (assign2 rest)"

text \<open>
  The body of the frame loop of \<^verbatim>\<open>BaselineGenerator.generate\<close>, on the two arrays it
  updates.
\<close>

definition frame_body ::
  "real \<Rightarrow> real list \<Rightarrow> nat \<Rightarrow> ndarray3 \<times> ndarray2 \<Rightarrow> error + (ndarray3 \<times> ndarray2)" where
  "frame_body tempo0 onset0 frame_idx arrays =
     (case arrays of (rotations0, translations0) \<Rightarrow>
      let t = real frame_idx / 60
      in
      thenE (assign2
               [((frame_idx, 0), 0.1 * sin (2 * pi * t * tempo0 / 60)),
                ((frame_idx, 1), 1.0 + 0.05 * \<bar>sin (4 * pi * t * tempo0 / 60)\<bar>),
                ((frame_idx, 2), 0.0)]
               translations0) (\<lambda>translations1.
      thenE (if frame_idx < length onset0 then getitem1 onset0 frame_idx else Inr 0)
        (\<lambda>beat_intensity.
      let arm_phase = 2 * pi * t * tempo0 / 60;
          hip_phase = 2 * pi * t * tempo0 / 120
      in
      thenE (assign3
               [((frame_idx, 3, 1), 5 * sin (2 * pi * t * tempo0 / 60)),
                ((frame_idx, 6, 1), 3 * sin (2 * pi * t * tempo0 / 60 + 0.5)),
                ((frame_idx, 16, 0), 30 + 30 * sin arm_phase),
                ((frame_idx, 17, 0), 30 + 30 * sin (arm_phase + pi)),
                ((frame_idx, 16, 2), 20 * sin (arm_phase * 2)),
                ((frame_idx, 17, 2), - 20 * sin (arm_phase * 2)),
                ((frame_idx, 18, 0), 10 + 20 * \<bar>sin arm_phase\<bar>),
                ((frame_idx, 19, 0), 10 + 20 * \<bar>sin (arm_phase + pi)\<bar>),
                ((frame_idx, 1, 2), 10 * sin hip_phase),
                ((frame_idx, 2, 2), - 10 * sin hip_phase)]
               rotations0) (\<lambda>rotations1.
      thenE (if beat_intensity > 0.5
             then imul_frame rotations1 frame_idx (1 + 0.2 * beat_intensity)
             else Inr rotations1) (\<lambda>rotations2.
        Inr (rotations2, translations1))))))"

fun frame_loop ::
  "real \<Rightarrow> real list \<Rightarrow> nat list \<Rightarrow> ndarray3 \<times> ndarray2 \<Rightarrow> error + (ndarray3 \<times> ndarray2)" where
  "frame_loop tempo0 onset0 [] arrays = Inr arrays"
| "frame_loop tempo0 onset0 (frame_idx # rest) arrays =
     thenE (frame_body tempo0 onset0 frame_idx arrays) (frame_loop tempo0 onset0 rest)"

text \<open>
  \<^verbatim>\<open>BaselineGenerator.generate\<close>. The seed motion is a parameter the body never reads.
\<close>

definition generate :: "config \<Rightarrow> features \<Rightarrow> ndarray3 option \<Rightarrow> error + motion" where
  "generate cfg audio_features seed_motion =
     (let n = ncols (mel audio_features);
          tempo0 = (case tempo audio_features of None \<Rightarrow> 120 | Some v \<Rightarrow> v);
          onset0 = (case onset audio_features of None \<Rightarrow> replicate n 0 | Some v \<Rightarrow> v)
      in thenE (frame_loop tempo0 onset0 [0..<n]
                  (zeros3 (n, num_joints cfg, 3), zeros2 (n, 3)))
           (\<lambda>arrays. Inr \<lparr>rotations = fst arrays, translations' = snd arrays,
                           num_frames = n, motion_fps = 60\<rparr>))"

section \<open>The hierarchy block (claim C8)\<close>

text \<open>
  The hierarchy as the skeleton tables describe it, without any text: the block of a
  joint has the joint's tag and name as its title, its offset and channel lines as
  fields, and as sub-blocks the blocks of its children in the order of \<open>children\<close>, or
  the one end marker when it has none.
\<close>

function skeleton_block :: "(real \<Rightarrow> string) \<Rightarrow> nat \<Rightarrow> block" where
  "skeleton_block fmt j =
     Block ((if j = 0 then ''ROOT '' else ''JOINT '') @ JOINT_NAMES ! j)
       [''OFFSET '' @ fmt (get_joint_offset j ! 0) @ '' '' @ fmt (get_joint_offset j ! 1)
          @ '' '' @ fmt (get_joint_offset j ! 2),
        strip_indent (if j = 0 then root_channels else joint_channels)]
       (if children j = [] then [Block ''End Site'' [''OFFSET 0.0 0.0 0.0''] []]
        else map (skeleton_block fmt) (children j))"
  by pat_completeness auto
termination
  by (relation "measure (\<lambda>(fmt, j). length PARENT_INDICES - j)")
     (auto dest: children_range)

declare skeleton_block.simps [simp del]

subsection \<open>The written hierarchy reads back as the skeleton\<close>

lemma strip_indent_of: "strip_indent (indent_of lvl @ s) = strip_indent s"
  by (induction lvl) (simp_all add: indent_of_def strip_indent_def)

lemma read_lines_append:
  "read_lines (xs @ ys) st = (case read_lines xs st of None \<Rightarrow> None | Some st' \<Rightarrow> read_lines ys st')"
  by (induction xs arbitrary: st) (auto split: option.splits)

text \<open>
  Lines that read as a run of complete blocks: whatever is open, reading them adds the
  blocks to the innermost open block and leaves the rest as it was.
\<close>

definition reads_as :: "string list \<Rightarrow> block list \<Rightarrow> bool" where
  "reads_as ls new = (\<forall>t fs bs stack. read_lines ls ((t, fs, bs) # stack) = Some ((t, fs, bs @ new) # stack))"

lemma reads_as_append: "reads_as xs a \<Longrightarrow> reads_as ys b \<Longrightarrow> reads_as (xs @ ys) (a @ b)"
  by (simp add: reads_as_def read_lines_append)

lemma reads_as_collect:
  "(\<And>c. c \<in> set cs \<Longrightarrow> \<exists>ls. f c = Inr ls \<and> reads_as ls [g c]) \<Longrightarrow>
   \<exists>ls. collect (map f cs) = Inr ls \<and> reads_as ls (map g cs)"
proof (induction cs)
  case Nil
  show ?case by (simp add: reads_as_def)
next
  case (Cons c cs)
  from Cons.prems [of c] obtain l1 where l1: "f c = Inr l1" "reads_as l1 [g c]" by auto
  from Cons.IH Cons.prems obtain l2 where l2: "collect (map f cs) = Inr l2" "reads_as l2 (map g cs)"
    by auto
  from reads_as_append [OF l1(2) l2(2)] l1(1) l2(1) show ?case by simp
qed


lemma reads_as_Nil: "reads_as [] []"
  by (simp add: reads_as_def)

lemma reads_as_block:
  assumes body: "reads_as body new"
    and braces: "strip_indent ob = ''{''" "strip_indent cb = ''}''"
    and ttl: "strip_indent ttl \<noteq> ''{''" "strip_indent ttl \<noteq> ''}''"
    and fl: "list_all (\<lambda>l. strip_indent l \<noteq> ''{'' \<and> strip_indent l \<noteq> ''}'') fls"
  shows "reads_as (ttl # ob # fls @ body @ [cb])
           [Block (strip_indent ttl) (map strip_indent fls) new]"
proof -
  have flds: "read_lines fls ((t, fs, bs) # stack) = Some ((t, fs @ map strip_indent fls, bs) # stack)"
    for t fs bs stack
    using fl by (induction fls arbitrary: fs) simp_all
  from body have body': "read_lines body ((t, fs, []) # stack) = Some ((t, fs, new) # stack)"
    for t fs stack
    by (simp add: reads_as_def)
  show ?thesis
    unfolding reads_as_def
    using ttl braces by (simp add: read_lines_append flds body')
qed

lemma reads_as_end_site:
  "reads_as (end_site (indent_of lvl)) [Block ''End Site'' [''OFFSET 0.0 0.0 0.0''] []]"
proof -
  have "reads_as ((indent_of lvl @ ''  End Site'') # (indent_of lvl @ ''  {'')
          # [indent_of lvl @ ''    OFFSET 0.0 0.0 0.0''] @ [] @ [indent_of lvl @ ''  }''])
         [Block (strip_indent (indent_of lvl @ ''  End Site''))
            (map strip_indent [indent_of lvl @ ''    OFFSET 0.0 0.0 0.0'']) []]"
    by (rule reads_as_block [OF reads_as_Nil])
       (simp_all add: strip_indent_of, simp_all add: strip_indent_def)
  then show ?thesis
    by (simp add: end_site_def strip_indent_of) (simp add: strip_indent_def)
qed

lemma subs_skeleton_block:
  "subs (skeleton_block fmt j) =
     (if children j = [] then [Block ''End Site'' [''OFFSET 0.0 0.0 0.0''] []]
      else map (skeleton_block fmt) (children j))"
  by (subst skeleton_block.simps) simp

lemma length_tables: "length JOINT_NAMES = 24" "length PARENT_INDICES = 24"
  by (simp_all add: JOINT_NAMES_def PARENT_INDICES_def)

lemma write_joint_reads:
  "j < length JOINT_NAMES \<Longrightarrow>
   \<exists>ls. write_joint fmt j lvl = Inr ls \<and> reads_as ls [skeleton_block fmt j]"
proof (induction fmt j lvl rule: write_joint.induct)
  case (1 fmt j lvl)
  let ?inner = "if children j \<noteq> []
           then collect (map (\<lambda>c. write_joint fmt c (lvl + 1)) (children j))
           else Inr (end_site (indent_of lvl))"
  have "\<exists>body. ?inner = Inr body \<and> reads_as body (subs (skeleton_block fmt j))"
  proof (cases "children j = []")
    case True
    then show ?thesis
      by (simp add: subs_skeleton_block reads_as_end_site)
  next
    case False
    have "\<exists>ls. write_joint fmt c (lvl + 1) = Inr ls \<and> reads_as ls [skeleton_block fmt c]"
      if "c \<in> set (children j)" for c
      using "1.IH" [OF _ False that] "1.prems" children_range [OF that]
      by (simp add: length_tables)
    from reads_as_collect [of "children j" "\<lambda>c. write_joint fmt c (lvl + 1)" "skeleton_block fmt", OF this]
    show ?thesis using False by (simp add: subs_skeleton_block)
  qed
  then obtain body where body: "?inner = Inr body" "reads_as body (subs (skeleton_block fmt j))"
    by blast
  let ?ind = "indent_of lvl"
  let ?ttl = "?ind @ (if j = 0 then ''ROOT '' else ''JOINT '') @ JOINT_NAMES ! j"
  let ?off = "?ind @ ''  OFFSET '' @ fmt (get_joint_offset j ! 0) @ '' ''
     @ fmt (get_joint_offset j ! 1) @ '' '' @ fmt (get_joint_offset j ! 2)"
  let ?ch = "?ind @ (if j = 0 then root_channels else joint_channels)"
  have "reads_as (?ttl # (?ind @ ''{'') # [?off, ?ch] @ body @ [?ind @ ''}''])
     [Block (strip_indent ?ttl) (map strip_indent [?off, ?ch]) (subs (skeleton_block fmt j))]"
    by (rule reads_as_block [OF body(2)])
       (simp_all add: strip_indent_of, simp_all add: strip_indent_def root_channels_def joint_channels_def)
  moreover have "Block (strip_indent ?ttl) (map strip_indent [?off, ?ch]) (subs (skeleton_block fmt j))
     = skeleton_block fmt j"
    by (subst (2) skeleton_block.simps)
       (simp add: subs_skeleton_block strip_indent_of, simp add: strip_indent_def)
  moreover have "write_joint fmt j lvl = Inr (?ttl # (?ind @ ''{'') # [?off, ?ch] @ body @ [?ind @ ''}''])"
    using "1.prems" body(1)
    by (subst write_joint.simps) (simp add: thenE_def joint_head_def Let_def)
  ultimately show ?case by simp
qed


lemma children_eval:
  "children 0 = [1, 2, 3]" "children 1 = [4]" "children 2 = [5]" "children 3 = [6]"
  "children 4 = [7]" "children 5 = [8]" "children 6 = [9]" "children 7 = [10]"
  "children 8 = [11]" "children 9 = [12, 13, 14]" "children 10 = []" "children 11 = []"
  "children 12 = [15]" "children 13 = [16]" "children 14 = [17]" "children 15 = []"
  "children 16 = [18]" "children 17 = [19]" "children 18 = [20]" "children 19 = [21]"
  "children 20 = [22]" "children 21 = [23]" "children 22 = []" "children 23 = []"
  "children (Suc 0) = [4]"
  by code_simp+

lemma upt_24:
  "[0..<24] = [0, 1, 2, 3, 4, 5, 6, 7, 8, 9, 10, 11, 12, 13, 14, 15, 16, 17, 18, 19, 20, 21, 22, 23]"
  by code_simp

lemma title_skeleton_block:
  "title (skeleton_block fmt j) = (if j = 0 then ''ROOT '' else ''JOINT '') @ JOINT_NAMES ! j"
  by (subst skeleton_block.simps) simp

lemma fields_skeleton_block:
  "block_fields (skeleton_block fmt j) =
     [''OFFSET '' @ fmt (get_joint_offset j ! 0) @ '' '' @ fmt (get_joint_offset j ! 1)
          @ '' '' @ fmt (get_joint_offset j ! 2),
      strip_indent (if j = 0 then root_channels else joint_channels)]"
  by (subst skeleton_block.simps) simp

lemma blocks_of_subs: "blocks_of b = b # concat (map blocks_of (subs b))"
  by (cases b) simp

lemma blocks_of_skeleton_block:
  "blocks_of (skeleton_block fmt j) =
     skeleton_block fmt j #
       (if children j = [] then [Block ''End Site'' [''OFFSET 0.0 0.0 0.0''] []]
        else concat (map (\<lambda>c. blocks_of (skeleton_block fmt c)) (children j)))"
  by (subst blocks_of_subs) (simp add: subs_skeleton_block comp_def)

definition the_end_site :: block where
  "the_end_site = Block ''End Site'' [''OFFSET 0.0 0.0 0.0''] []"

lemma skeleton_blocks:
  "blocks_of (skeleton_block fmt 0) =
     [skeleton_block fmt 0, skeleton_block fmt 1, skeleton_block fmt 4, skeleton_block fmt 7,
      skeleton_block fmt 10, the_end_site, skeleton_block fmt 2, skeleton_block fmt 5,
      skeleton_block fmt 8, skeleton_block fmt 11, the_end_site, skeleton_block fmt 3,
      skeleton_block fmt 6, skeleton_block fmt 9, skeleton_block fmt 12, skeleton_block fmt 15,
      the_end_site, skeleton_block fmt 13, skeleton_block fmt 16, skeleton_block fmt 18,
      skeleton_block fmt 20, skeleton_block fmt 22, the_end_site, skeleton_block fmt 14,
      skeleton_block fmt 17, skeleton_block fmt 19, skeleton_block fmt 21, skeleton_block fmt 23,
      the_end_site]"
  by (simp add: blocks_of_skeleton_block children_eval the_end_site_def)

lemma all_below: "(\<forall>j<n. P j) = list_all P [0..<n]"
  by (auto simp: list_all_iff)

lemma joint_block_skeleton:
  "j < length JOINT_NAMES \<Longrightarrow>
   joint_block (JOINT_NAMES ! j) [skeleton_block fmt 0] = Some (skeleton_block fmt j)"
proof -
  have "\<forall>j<24. joint_block (JOINT_NAMES ! j) [skeleton_block fmt 0] = Some (skeleton_block fmt j)"
    unfolding all_below
    by (simp add: joint_block_def skeleton_blocks title_skeleton_block the_end_site_def
        JOINT_NAMES_def upt_24)
  then show "j < length JOINT_NAMES \<Longrightarrow> ?thesis" by (simp add: length_tables)
qed


lemma parent_is_joint:
  "0 < j \<Longrightarrow> j < length PARENT_INDICES \<Longrightarrow> 0 \<le> PARENT_INDICES ! j"
proof -
  have "list_all (\<lambda>j. 0 < j \<longrightarrow> 0 \<le> PARENT_INDICES ! j) [0..<length PARENT_INDICES]"
    by (simp add: PARENT_INDICES_def upt_24)
  then show "0 < j \<Longrightarrow> j < length PARENT_INDICES \<Longrightarrow> 0 \<le> PARENT_INDICES ! j"
    by (simp add: list_all_iff)
qed

lemma child_of_parent:
  assumes "0 < j" "j < length PARENT_INDICES"
  shows "nat (PARENT_INDICES ! j) < j \<and> j \<in> set (children (nat (PARENT_INDICES ! j)))"
  using parent_is_joint [OF assms] parent_below [OF assms(2)] assms(2)
  by (simp add: children_def)

lemma sorted_children: "sorted_wrt (<) (children j)"
  by (simp add: children_def sorted_wrt_filter)

text \<open>
  Claim C8. The written HIERARCHY block is well bracketed and reads as one top-level
  block, the root's, which is the only block tagged ROOT. For every joint \<open>j\<close> of the 24:
  its block is titled ROOT (joint 0) or JOINT (every other joint) with the joint's name;
  it declares 6 channels (joint 0) or 3 channels (every other joint); for \<open>j > 0\<close> it is
  one of the sub-blocks of the block of its parent \<open>PARENT_INDICES ! j\<close>; the children of
  \<open>j\<close> are in ascending index order and the sub-blocks of its block are exactly their
  blocks in that order; and a joint without children has one sub-block, an End Site
  with the offset \<open>0.0 0.0 0.0\<close>.
\<close>

theorem hierarchy_well_formed:
  "\<exists>ls root.
     write_hierarchy fmt = Inr ls \<and> read_blocks ls = Some ([''HIERARCHY''], [root]) \<and>
     filter (\<lambda>b. take 5 (title b) = ''ROOT '') (blocks_of root) = [root] \<and>
     (\<forall>j<length JOINT_NAMES. \<exists>b.
        joint_block (JOINT_NAMES ! j) [root] = Some b \<and>
        title b = (if j = 0 then ''ROOT '' else ''JOINT '') @ JOINT_NAMES ! j \<and>
        last (block_fields b) =
          (if j = 0
           then ''CHANNELS 6 Xposition Yposition Zposition Zrotation Xrotation Yrotation''
           else ''CHANNELS 3 Zrotation Xrotation Yrotation'') \<and>
        (0 < j \<longrightarrow>
           (\<exists>p. joint_block (JOINT_NAMES ! nat (PARENT_INDICES ! j)) [root] = Some p
              \<and> b \<in> set (subs p))) \<and>
        sorted_wrt (<) (children j) \<and>
        (if children j = [] then subs b = [Block ''End Site'' [''OFFSET 0.0 0.0 0.0''] []]
         else map title (subs b) = map (\<lambda>c. ''JOINT '' @ JOINT_NAMES ! c) (children j)))"
proof -
  let ?root = "skeleton_block fmt 0"
  obtain ls where ls: "write_joint fmt 0 0 = Inr ls" "reads_as ls [?root]"
    using write_joint_reads [of 0 fmt 0] by (auto simp: length_tables)
  have w: "write_hierarchy fmt = Inr (''HIERARCHY'' # ls)"
    by (simp add: write_hierarchy_def thenE_def ls)
  have r: "read_blocks (''HIERARCHY'' # ls) = Some ([''HIERARCHY''], [?root])"
    using ls(2) by (simp add: read_blocks_def reads_as_def strip_indent_def)
  have sole: "filter (\<lambda>b. take 5 (title b) = ''ROOT '') (blocks_of ?root) = [?root]"
    by (simp add: skeleton_blocks title_skeleton_block the_end_site_def JOINT_NAMES_def)
  have each: "\<exists>b.
        joint_block (JOINT_NAMES ! j) [?root] = Some b \<and>
        title b = (if j = 0 then ''ROOT '' else ''JOINT '') @ JOINT_NAMES ! j \<and>
        last (block_fields b) =
          (if j = 0
           then ''CHANNELS 6 Xposition Yposition Zposition Zrotation Xrotation Yrotation''
           else ''CHANNELS 3 Zrotation Xrotation Yrotation'') \<and>
        (0 < j \<longrightarrow>
           (\<exists>p. joint_block (JOINT_NAMES ! nat (PARENT_INDICES ! j)) [?root] = Some p
              \<and> b \<in> set (subs p))) \<and>
        sorted_wrt (<) (children j) \<and>
        (if children j = [] then subs b = [Block ''End Site'' [''OFFSET 0.0 0.0 0.0''] []]
         else map title (subs b) = map (\<lambda>c. ''JOINT '' @ JOINT_NAMES ! c) (children j))"
    if j: "j < length JOINT_NAMES" for j
  proof -
    let ?b = "skeleton_block fmt j"
    have 1: "joint_block (JOINT_NAMES ! j) [?root] = Some ?b"
      by (rule joint_block_skeleton [OF j])
    have 2: "last (block_fields ?b) =
          (if j = 0
           then ''CHANNELS 6 Xposition Yposition Zposition Zrotation Xrotation Yrotation''
           else ''CHANNELS 3 Zrotation Xrotation Yrotation'')"
      by (simp add: fields_skeleton_block strip_indent_def root_channels_def joint_channels_def)
    have 3: "\<exists>p. joint_block (JOINT_NAMES ! nat (PARENT_INDICES ! j)) [?root] = Some p
              \<and> ?b \<in> set (subs p)" if "0 < j"
    proof -
      from child_of_parent [OF that] j
      have p: "nat (PARENT_INDICES ! j) < length JOINT_NAMES"
        and c: "j \<in> set (children (nat (PARENT_INDICES ! j)))"
        by (simp_all add: length_tables)
      from c have "?b \<in> set (subs (skeleton_block fmt (nat (PARENT_INDICES ! j))))"
        by (auto simp: subs_skeleton_block)
      with joint_block_skeleton [OF p] show ?thesis by blast
    qed
    have 4: "map title (subs ?b) = map (\<lambda>c. ''JOINT '' @ JOINT_NAMES ! c) (children j)"
      if "children j \<noteq> []"
      using that
      by (auto simp: subs_skeleton_block title_skeleton_block dest: children_range)
    show ?thesis
      using 1 2 3 4 by (simp add: title_skeleton_block sorted_children subs_skeleton_block)
  qed
  show ?thesis
    using w r sole each by blast
qed

text \<open>
  The statement at joint 16 (L\_Shoulder, child of joint 13, parent of joint 18), for a
  formatter that prints every number as \<open>0.000000\<close>.
\<close>

theorem hierarchy_well_formed_witness:
  "\<exists>ls root b p.
     write_hierarchy (\<lambda>v. ''0.000000'') = Inr ls \<and>
     read_blocks ls = Some ([''HIERARCHY''], [root]) \<and>
     joint_block ''L_Shoulder'' [root] = Some b \<and> title b = ''JOINT L_Shoulder'' \<and>
     last (block_fields b) = ''CHANNELS 3 Zrotation Xrotation Yrotation'' \<and>
     joint_block ''L_Collar'' [root] = Some p \<and> b \<in> set (subs p) \<and>
     map title (subs b) = [''JOINT L_Elbow'']"
proof -
  from hierarchy_well_formed [of "\<lambda>v. ''0.000000''"]
  obtain ls root where
    h: "write_hierarchy (\<lambda>v. ''0.000000'') = Inr ls"
       "read_blocks ls = Some ([''HIERARCHY''], [root])"
    and a: "\<forall>j<length JOINT_NAMES. \<exists>b.
        joint_block (JOINT_NAMES ! j) [root] = Some b \<and>
        title b = (if j = 0 then ''ROOT '' else ''JOINT '') @ JOINT_NAMES ! j \<and>
        last (block_fields b) =
          (if j = 0
           then ''CHANNELS 6 Xposition Yposition Zposition Zrotation Xrotation Yrotation''
           else ''CHANNELS 3 Zrotation Xrotation Yrotation'') \<and>
        (0 < j \<longrightarrow>
           (\<exists>p. joint_block (JOINT_NAMES ! nat (PARENT_INDICES ! j)) [root] = Some p
              \<and> b \<in> set (subs p))) \<and>
        sorted_wrt (<) (children j) \<and>
        (if children j = [] then subs b = [Block ''End Site'' [''OFFSET 0.0 0.0 0.0''] []]
         else map title (subs b) = map (\<lambda>c. ''JOINT '' @ JOINT_NAMES ! c) (children j))"
    by blast
  have "(16::nat) < length JOINT_NAMES" by (simp add: length_tables)
  with a have "\<exists>b.
        joint_block (JOINT_NAMES ! 16) [root] = Some b \<and>
        title b = (if (16::nat) = 0 then ''ROOT '' else ''JOINT '') @ JOINT_NAMES ! 16 \<and>
        last (block_fields b) =
          (if (16::nat) = 0
           then ''CHANNELS 6 Xposition Yposition Zposition Zrotation Xrotation Yrotation''
           else ''CHANNELS 3 Zrotation Xrotation Yrotation'') \<and>
        ((0::nat) < 16 \<longrightarrow>
           (\<exists>p. joint_block (JOINT_NAMES ! nat (PARENT_INDICES ! 16)) [root] = Some p
              \<and> b \<in> set (subs p))) \<and>
        sorted_wrt (<) (children 16) \<and>
        (if children 16 = [] then subs b = [Block ''End Site'' [''OFFSET 0.0 0.0 0.0''] []]
         else map title (subs b) = map (\<lambda>c. ''JOINT '' @ JOINT_NAMES ! c) (children 16))"
    by blast
  then obtain b p where
    "joint_block ''L_Shoulder'' [root] = Some b" "title b = ''JOINT L_Shoulder''"
    "last (block_fields b) = ''CHANNELS 3 Zrotation Xrotation Yrotation''"
    "joint_block ''L_Collar'' [root] = Some p" "b \<in> set (subs p)"
    "map title (subs b) = [''JOINT L_Elbow'']"
    by (auto simp: JOINT_NAMES_def PARENT_INDICES_def children_eval)
  with h show ?thesis
    by - (rule exI [of _ ls], rule exI [of _ root], rule exI [of _ b], rule exI [of _ p], simp)
qed

section \<open>The generated motion (claims C5, C6 and C10)\<close>

subsection \<open>What a run of assignments leaves in an array\<close>

text \<open>
  After a run of assignments a cell holds the value of the last assignment to it, or
  what it held before.
\<close>

definition put3 :: "ndarray3 \<Rightarrow> ((nat \<times> nat \<times> nat) \<times> real) list \<Rightarrow> ndarray3" where
  "put3 a ws = a\<lparr>item3 := (\<lambda>i j k. case map_of (rev ws) (i, j, k) of Some v \<Rightarrow> v | None \<Rightarrow> item3 a i j k)\<rparr>"

definition put2 :: "ndarray2 \<Rightarrow> ((nat \<times> nat) \<times> real) list \<Rightarrow> ndarray2" where
  "put2 a ws = a\<lparr>item2 := (\<lambda>i j. case map_of (rev ws) (i, j) of Some v \<Rightarrow> v | None \<Rightarrow> item2 a i j)\<rparr>"

definition inside3 :: "nat \<times> nat \<times> nat \<Rightarrow> nat \<times> nat \<times> nat \<Rightarrow> bool" where
  "inside3 sh idx = (case (sh, idx) of ((n0, n1, n2), (i, j, k)) \<Rightarrow> i < n0 \<and> j < n1 \<and> k < n2)"

definition inside2 :: "nat \<times> nat \<Rightarrow> nat \<times> nat \<Rightarrow> bool" where
  "inside2 sh idx = (case (sh, idx) of ((n0, n1), (i, j)) \<Rightarrow> i < n0 \<and> j < n1)"

lemma assign3_inside:
  "list_all (\<lambda>w. inside3 (shape3 a) (fst w)) ws \<Longrightarrow> assign3 ws a = Inr (put3 a ws)"
proof (induction ws arbitrary: a)
  case Nil
  show ?case by (simp add: put3_def)
next
  case (Cons w ws)
  obtain i j k v where w: "w = ((i, j, k), v)" by (cases w) auto
  obtain n0 n1 n2 where sh: "shape3 a = (n0, n1, n2)" by (cases "shape3 a") auto
  let ?a = "a\<lparr>item3 := (\<lambda>i' j' k'. if i' = i \<and> j' = j \<and> k' = k then v else item3 a i' j' k')\<rparr>"
  from Cons.prems have s: "setitem3 a (i, j, k) v = Inr ?a"
    by (simp add: w sh setitem3_def inside3_def)
  from Cons.prems have "list_all (\<lambda>w. inside3 (shape3 ?a) (fst w)) ws" by simp
  from Cons.IH [OF this] have "assign3 ws ?a = Inr (put3 ?a ws)" .
  moreover have "put3 ?a ws = put3 a (w # ws)"
    by (auto simp: put3_def w map_of_append map_add_def fun_eq_iff split: option.splits)
  ultimately show ?case by (simp add: w s thenE_def)
qed

lemma assign2_inside:
  "list_all (\<lambda>w. inside2 (shape2 a) (fst w)) ws \<Longrightarrow> assign2 ws a = Inr (put2 a ws)"
proof (induction ws arbitrary: a)
  case Nil
  show ?case by (simp add: put2_def)
next
  case (Cons w ws)
  obtain i j v where w: "w = ((i, j), v)" by (cases w) auto
  obtain n0 n1 where sh: "shape2 a = (n0, n1)" by (cases "shape2 a") auto
  let ?a = "a\<lparr>item2 := (\<lambda>i' j'. if i' = i \<and> j' = j then v else item2 a i' j')\<rparr>"
  from Cons.prems have s: "setitem2 a (i, j) v = Inr ?a"
    by (simp add: w sh setitem2_def inside2_def)
  from Cons.prems have "list_all (\<lambda>w. inside2 (shape2 ?a) (fst w)) ws" by simp
  from Cons.IH [OF this] have "assign2 ws ?a = Inr (put2 ?a ws)" .
  moreover have "put2 ?a ws = put2 a (w # ws)"
    by (auto simp: put2_def w map_of_append map_add_def fun_eq_iff split: option.splits)
  ultimately show ?case by (simp add: w s thenE_def)
qed


subsection \<open>One pass of the frame loop\<close>

text \<open>
  The factor the last statement of the loop body applies to frame \<open>f\<close>, the cells the body
  assigns, and what a cell of frame \<open>f\<close> holds after the pass.
\<close>

definition emphasis :: "real list \<Rightarrow> nat \<Rightarrow> real" where
  "emphasis os f = (if f < length os \<and> 0.5 < os ! f then 1 + 0.2 * os ! f else 1)"

definition rot_writes :: "real \<Rightarrow> nat \<Rightarrow> ((nat \<times> nat \<times> nat) \<times> real) list" where
  "rot_writes tempo0 f =
     [((f, 3, 1), 5 * sin (2 * pi * (real f / 60) * tempo0 / 60)),
      ((f, 6, 1), 3 * sin (2 * pi * (real f / 60) * tempo0 / 60 + 0.5)),
      ((f, 16, 0), 30 + 30 * sin (2 * pi * (real f / 60) * tempo0 / 60)),
      ((f, 17, 0), 30 + 30 * sin (2 * pi * (real f / 60) * tempo0 / 60 + pi)),
      ((f, 16, 2), 20 * sin (2 * pi * (real f / 60) * tempo0 / 60 * 2)),
      ((f, 17, 2), - 20 * sin (2 * pi * (real f / 60) * tempo0 / 60 * 2)),
      ((f, 18, 0), 10 + 20 * \<bar>sin (2 * pi * (real f / 60) * tempo0 / 60)\<bar>),
      ((f, 19, 0), 10 + 20 * \<bar>sin (2 * pi * (real f / 60) * tempo0 / 60 + pi)\<bar>),
      ((f, 1, 2), 10 * sin (2 * pi * (real f / 60) * tempo0 / 120)),
      ((f, 2, 2), - 10 * sin (2 * pi * (real f / 60) * tempo0 / 120))]"

definition trans_writes :: "real \<Rightarrow> nat \<Rightarrow> ((nat \<times> nat) \<times> real) list" where
  "trans_writes tempo0 f =
     [((f, 0), 0.1 * sin (2 * pi * (real f / 60) * tempo0 / 60)),
      ((f, 1), 1.0 + 0.05 * \<bar>sin (4 * pi * (real f / 60) * tempo0 / 60)\<bar>),
      ((f, 2), 0.0)]"

text \<open>
  The value the loop body assigns to the rotation of a joint about an axis in frame
  \<open>frame_idx\<close>, before any emphasis; 0, the initial value, for the cells the body leaves
  alone.
\<close>

definition base_rotation :: "real \<Rightarrow> nat \<Rightarrow> nat \<Rightarrow> nat \<Rightarrow> real" where
  "base_rotation tempo0 frame_idx joint axis =
     (let t = real frame_idx / 60;
          arm_phase = 2 * pi * t * tempo0 / 60;
          hip_phase = 2 * pi * t * tempo0 / 120
      in if joint = 3 \<and> axis = 1 then 5 * sin (2 * pi * t * tempo0 / 60)
         else if joint = 6 \<and> axis = 1 then 3 * sin (2 * pi * t * tempo0 / 60 + 0.5)
         else if joint = 16 \<and> axis = 0 then 30 + 30 * sin arm_phase
         else if joint = 17 \<and> axis = 0 then 30 + 30 * sin (arm_phase + pi)
         else if joint = 16 \<and> axis = 2 then 20 * sin (arm_phase * 2)
         else if joint = 17 \<and> axis = 2 then - 20 * sin (arm_phase * 2)
         else if joint = 18 \<and> axis = 0 then 10 + 20 * \<bar>sin arm_phase\<bar>
         else if joint = 19 \<and> axis = 0 then 10 + 20 * \<bar>sin (arm_phase + pi)\<bar>
         else if joint = 1 \<and> axis = 2 then 10 * sin hip_phase
         else if joint = 2 \<and> axis = 2 then - 10 * sin hip_phase
         else 0)"

definition cell_rot :: "real \<Rightarrow> real list \<Rightarrow> nat \<Rightarrow> nat \<Rightarrow> nat \<Rightarrow> real \<Rightarrow> real" where
  "cell_rot tempo0 os f j k old =
     (case map_of (rev (rot_writes tempo0 f)) (f, j, k) of Some v \<Rightarrow> v | None \<Rightarrow> old)
       * emphasis os f"

definition cell_trans :: "real \<Rightarrow> nat \<Rightarrow> nat \<Rightarrow> real \<Rightarrow> real" where
  "cell_trans tempo0 f k old =
     (case map_of (rev (trans_writes tempo0 f)) (f, k) of Some v \<Rightarrow> v | None \<Rightarrow> old)"

lemma writes_lookup:
  fixes a1 :: real
  shows "(case map_of (rev [((f, 3, 1), a1), ((f, 6, 1), a2), ((f, 16, 0), a3),
            ((f, 17, 0), a4), ((f, 16, 2), a5), ((f, 17, 2), a6), ((f, 18, 0), a7),
            ((f, 19, 0), a8), ((f, 1, 2), a9), ((f, 2, 2), a10)]) (f, j :: nat, k :: nat) of
          Some v \<Rightarrow> v | None \<Rightarrow> 0) =
     (if j = 3 \<and> k = 1 then a1
      else if j = 6 \<and> k = 1 then a2
      else if j = 16 \<and> k = 0 then a3
      else if j = 17 \<and> k = 0 then a4
      else if j = 16 \<and> k = 2 then a5
      else if j = 17 \<and> k = 2 then a6
      else if j = 18 \<and> k = 0 then a7
      else if j = 19 \<and> k = 0 then a8
      else if j = 1 \<and> k = 2 then a9
      else if j = 2 \<and> k = 2 then a10
      else 0)"
  by auto

lemma cell_rot_base:
  "cell_rot tempo0 os f j k 0 = base_rotation tempo0 f j k * emphasis os f"
  unfolding cell_rot_def rot_writes_def base_rotation_def Let_def
  by (simp only: writes_lookup)

lemma map_of_rot_writes_other:
  "i \<noteq> f \<Longrightarrow> map_of (rev (rot_writes tempo0 f)) (i, j, k) = None"
  by (simp add: rot_writes_def)

lemma map_of_trans_writes_other:
  "i \<noteq> f \<Longrightarrow> map_of (rev (trans_writes tempo0 f)) (i, k) = None"
  by (simp add: trans_writes_def)

lemma update_item3_same: "(\<And>i j k. g i j k = item3 a i j k) \<Longrightarrow> a\<lparr>item3 := g\<rparr> = a"
  by (cases a) (auto simp: fun_eq_iff)

lemma imul_frame_inside:
  "i < fst (shape3 a) \<Longrightarrow>
   imul_frame a i c =
     Inr (a\<lparr>item3 := (\<lambda>i' j k. if i' = i then item3 a i' j k * c else item3 a i' j k)\<rparr>)"
  by (simp add: imul_frame_def)

lemma frame_body_unfold:
  "frame_body tempo0 os f (R, T) =
     thenE (assign2 (trans_writes tempo0 f) T) (\<lambda>T1.
     thenE (if f < length os then getitem1 os f else Inr 0) (\<lambda>beat.
     thenE (assign3 (rot_writes tempo0 f) R) (\<lambda>R1.
     thenE (if beat > 0.5 then imul_frame R1 f (1 + 0.2 * beat) else Inr R1) (\<lambda>R2.
       Inr (R2, T1)))))"
  by (simp only: frame_body_def rot_writes_def trans_writes_def Let_def prod.case)

lemma frame_body_inside:
  assumes R: "shape3 R = (n, J, 3)" and J: "20 \<le> J" and T: "shape2 T = (n, 3)" and f: "f < n"
  shows "\<exists>R' T'. frame_body tempo0 os f (R, T) = Inr (R', T') \<and>
           shape3 R' = shape3 R \<and> shape2 T' = shape2 T \<and>
           (\<forall>i j k. item3 R' i j k =
              (if i = f then cell_rot tempo0 os f j k (item3 R f j k) else item3 R i j k)) \<and>
           (\<forall>i k. item2 T' i k =
              (if i = f then cell_trans tempo0 f k (item2 T f k) else item2 T i k))"
proof -
  have t: "assign2 (trans_writes tempo0 f) T = Inr (put2 T (trans_writes tempo0 f))"
    using T f by (intro assign2_inside) (simp add: trans_writes_def inside2_def)
  have r: "assign3 (rot_writes tempo0 f) R = Inr (put3 R (rot_writes tempo0 f))"
    using R J f by (intro assign3_inside) (simp add: rot_writes_def inside3_def)
  have b: "(if f < length os then getitem1 os f else Inr 0)
      = Inr (if f < length os then os ! f else 0)"
    by (simp add: getitem1_def)
  let ?R1 = "put3 R (rot_writes tempo0 f)"
  let ?beat = "if f < length os then os ! f else 0"
  let ?R2 = "?R1\<lparr>item3 := (\<lambda>i j k. if i = f then item3 ?R1 i j k * emphasis os f
                                    else item3 ?R1 i j k)\<rparr>"
  have R2: "(if ?beat > 0.5 then imul_frame ?R1 f (1 + 0.2 * ?beat) else Inr ?R1) = Inr ?R2"
  proof (cases "?beat > 0.5")
    case True
    have e: "1 + 0.2 * ?beat = emphasis os f"
      using True by (auto simp: emphasis_def split: if_splits)
    have "imul_frame ?R1 f (1 + 0.2 * ?beat) = Inr ?R2"
      unfolding e by (rule imul_frame_inside) (simp add: put3_def R f)
    with True show ?thesis by (simp only: if_True)
  next
    case False
    have e: "emphasis os f = 1"
      using False by (auto simp: emphasis_def split: if_splits)
    have "?R2 = ?R1"
      unfolding e by (rule update_item3_same) simp
    with False show ?thesis by (simp only: if_False)
  qed
  have fb: "frame_body tempo0 os f (R, T) = Inr (?R2, put2 T (trans_writes tempo0 f))"
    by (simp only: frame_body_unfold t b r R2 thenE_def sum.case)
  show ?thesis
    unfolding fb
    by (auto simp: cell_rot_def cell_trans_def put3_def put2_def map_of_rot_writes_other
        map_of_trans_writes_other)
qed


subsection \<open>The loop and \<^verbatim>\<open>generate\<close>\<close>

text \<open>A pass touches the cells of its own frame only, so the passes do not interfere.\<close>

lemma frame_loop_inside:
  assumes "shape3 R = (n, J, 3)" and "20 \<le> J" and "shape2 T = (n, 3)"
    and "\<forall>f \<in> set fs. f < n" and "distinct fs"
  shows "\<exists>R' T'. frame_loop tempo0 os fs (R, T) = Inr (R', T') \<and>
           shape3 R' = shape3 R \<and> shape2 T' = shape2 T \<and>
           (\<forall>i j k. item3 R' i j k =
              (if i \<in> set fs then cell_rot tempo0 os i j k (item3 R i j k) else item3 R i j k)) \<and>
           (\<forall>i k. item2 T' i k =
              (if i \<in> set fs then cell_trans tempo0 i k (item2 T i k) else item2 T i k))"
  using assms
proof (induction fs arbitrary: R T)
  case Nil
  show ?case by simp
next
  case (Cons f fs)
  from Cons.prems have f: "f < n" and nf: "f \<notin> set fs" by simp_all
  from frame_body_inside [OF Cons.prems(1) Cons.prems(2) Cons.prems(3) f, of tempo0 os]
  obtain R1 T1 where
    b: "frame_body tempo0 os f (R, T) = Inr (R1, T1)"
    and sh: "shape3 R1 = shape3 R" "shape2 T1 = shape2 T"
    and r1: "\<And>i j k. item3 R1 i j k =
              (if i = f then cell_rot tempo0 os f j k (item3 R f j k) else item3 R i j k)"
    and t1: "\<And>i k. item2 T1 i k =
              (if i = f then cell_trans tempo0 f k (item2 T f k) else item2 T i k)"
    by blast
  have "\<exists>R' T'. frame_loop tempo0 os fs (R1, T1) = Inr (R', T') \<and>
           shape3 R' = shape3 R1 \<and> shape2 T' = shape2 T1 \<and>
           (\<forall>i j k. item3 R' i j k =
              (if i \<in> set fs then cell_rot tempo0 os i j k (item3 R1 i j k) else item3 R1 i j k)) \<and>
           (\<forall>i k. item2 T' i k =
              (if i \<in> set fs then cell_trans tempo0 i k (item2 T1 i k) else item2 T1 i k))"
    using Cons.prems sh by (intro Cons.IH) simp_all
  then obtain R' T' where
    l: "frame_loop tempo0 os fs (R1, T1) = Inr (R', T')"
    and sh': "shape3 R' = shape3 R1" "shape2 T' = shape2 T1"
    and r': "\<And>i j k. item3 R' i j k =
              (if i \<in> set fs then cell_rot tempo0 os i j k (item3 R1 i j k) else item3 R1 i j k)"
    and t': "\<And>i k. item2 T' i k =
              (if i \<in> set fs then cell_trans tempo0 i k (item2 T1 i k) else item2 T1 i k)"
    by blast
  have "frame_loop tempo0 os (f # fs) (R, T) = Inr (R', T')"
    by (simp add: b l thenE_def)
  moreover have "item3 R' i j k =
      (if i \<in> set (f # fs) then cell_rot tempo0 os i j k (item3 R i j k) else item3 R i j k)"
    for i j k
    using nf by (auto simp: r' r1)
  moreover have "item2 T' i k =
      (if i \<in> set (f # fs) then cell_trans tempo0 i k (item2 T i k) else item2 T i k)"
    for i k
    using nf by (auto simp: t' t1)
  ultimately show ?case
    using sh sh' by simp
qed

lemma generate_cells:
  assumes J: "20 \<le> num_joints cfg"
  shows "\<exists>out. generate cfg af seed = Inr out \<and>
     num_frames out = ncols (mel af) \<and> motion_fps out = 60 \<and>
     shape3 (rotations out) = (ncols (mel af), num_joints cfg, 3) \<and>
     shape2 (translations' out) = (ncols (mel af), 3) \<and>
     (\<forall>i j k. item3 (rotations out) i j k =
        (if i < ncols (mel af)
         then cell_rot (case tempo af of None \<Rightarrow> 120 | Some v \<Rightarrow> v)
                (case onset af of None \<Rightarrow> replicate (ncols (mel af)) 0 | Some v \<Rightarrow> v) i j k 0
         else 0)) \<and>
     (\<forall>i k. item2 (translations' out) i k =
        (if i < ncols (mel af)
         then cell_trans (case tempo af of None \<Rightarrow> 120 | Some v \<Rightarrow> v) i k 0
         else 0))"
proof -
  let ?n = "ncols (mel af)"
  let ?tempo = "case tempo af of None \<Rightarrow> 120 | Some v \<Rightarrow> v"
  let ?os = "case onset af of None \<Rightarrow> replicate ?n 0 | Some v \<Rightarrow> v"
  have "\<exists>R' T'. frame_loop ?tempo ?os [0..<?n] (zeros3 (?n, num_joints cfg, 3), zeros2 (?n, 3))
            = Inr (R', T') \<and>
           shape3 R' = shape3 (zeros3 (?n, num_joints cfg, 3)) \<and>
           shape2 T' = shape2 (zeros2 (?n, 3)) \<and>
           (\<forall>i j k. item3 R' i j k =
              (if i \<in> set [0..<?n]
               then cell_rot ?tempo ?os i j k (item3 (zeros3 (?n, num_joints cfg, 3)) i j k)
               else item3 (zeros3 (?n, num_joints cfg, 3)) i j k)) \<and>
           (\<forall>i k. item2 T' i k =
              (if i \<in> set [0..<?n] then cell_trans ?tempo i k (item2 (zeros2 (?n, 3)) i k)
               else item2 (zeros2 (?n, 3)) i k))"
    by (rule frame_loop_inside [where n = ?n and J = "num_joints cfg"])
       (simp_all add: zeros3_def zeros2_def J)
  then obtain R' T' where
    "frame_loop ?tempo ?os [0..<?n] (zeros3 (?n, num_joints cfg, 3), zeros2 (?n, 3)) = Inr (R', T')"
    "shape3 R' = (?n, num_joints cfg, 3)" "shape2 T' = (?n, 3)"
    "\<forall>i j k. item3 R' i j k = (if i < ?n then cell_rot ?tempo ?os i j k 0 else 0)"
    "\<forall>i k. item2 T' i k = (if i < ?n then cell_trans ?tempo i k 0 else 0)"
    by (auto simp: zeros3_def zeros2_def)
  then show ?thesis
    by (simp add: generate_def Let_def thenE_def)
qed


subsection \<open>The claims about the generated motion\<close>

lemma default_joints: "20 \<le> num_joints default_config"
  by (simp add: default_config_def)

lemma emphasis_zero [simp]: "emphasis (replicate n 0) i = 1"
  by (simp add: emphasis_def)

text \<open>
  Claim C5. Take the motion generated from the features and, for comparison, the motion
  generated from the same features without an onset vector (then every beat intensity
  is 0 and nothing is scaled). Both generations succeed and the rotations have 24 joints
  of 3 axes. For every frame \<open>i\<close> that the onset vector covers, a rotation cell of the
  comparison motion holds the value the loop body assigns to it (\<open>base_rotation\<close>, 0 for
  the cells it leaves alone), and: if \<open>onset[i] > 0.5\<close>, every rotation cell of frame \<open>i\<close> is
  that unscaled cell times \<open>1 + 0.2 * onset[i]\<close>; otherwise every rotation cell of the
  frame is the unscaled cell; and the root translation of the frame is the same in both.
\<close>

theorem emphasis_rule:
  assumes "onset af = Some os" and "i < ncols (mel af)" and "i < length os"
  shows "\<exists>out plain.
     generate default_config af seed = Inr out \<and>
     generate default_config (af\<lparr>onset := None\<rparr>) seed = Inr plain \<and>
     shape3 (rotations out) = (ncols (mel af), 24, 3) \<and>
     (\<forall>j k. item3 (rotations out) i j k =
        (if 0.5 < os ! i then item3 (rotations plain) i j k * (1 + 0.2 * os ! i)
         else item3 (rotations plain) i j k)) \<and>
     (\<forall>k. item2 (translations' out) i k = item2 (translations' plain) i k) \<and>
     (\<forall>j k. item3 (rotations plain) i j k =
        base_rotation (case tempo af of None \<Rightarrow> 120 | Some v \<Rightarrow> v) i j k)"
proof -
  from generate_cells [OF default_joints, of af seed] obtain out where
    out: "generate default_config af seed = Inr out"
      "shape3 (rotations out) = (ncols (mel af), num_joints default_config, 3)"
    and ro: "\<And>i j k. item3 (rotations out) i j k =
        (if i < ncols (mel af)
         then cell_rot (case tempo af of None \<Rightarrow> 120 | Some v \<Rightarrow> v)
                (case onset af of None \<Rightarrow> replicate (ncols (mel af)) 0 | Some v \<Rightarrow> v) i j k 0
         else 0)"
    and tr: "\<And>i k. item2 (translations' out) i k =
        (if i < ncols (mel af)
         then cell_trans (case tempo af of None \<Rightarrow> 120 | Some v \<Rightarrow> v) i k 0
         else 0)"
    by blast
  let ?af = "af\<lparr>onset := None\<rparr>"
  from generate_cells [OF default_joints, of ?af seed] obtain plain where
    plain: "generate default_config ?af seed = Inr plain"
    and rp: "\<And>i j k. item3 (rotations plain) i j k =
        (if i < ncols (mel ?af)
         then cell_rot (case tempo ?af of None \<Rightarrow> 120 | Some v \<Rightarrow> v)
                (case onset ?af of None \<Rightarrow> replicate (ncols (mel ?af)) 0 | Some v \<Rightarrow> v) i j k 0
         else 0)"
    and tp: "\<And>i k. item2 (translations' plain) i k =
        (if i < ncols (mel ?af)
         then cell_trans (case tempo ?af of None \<Rightarrow> 120 | Some v \<Rightarrow> v) i k 0
         else 0)"
    by blast
  have "item3 (rotations out) i j k =
        (if 0.5 < os ! i then item3 (rotations plain) i j k * (1 + 0.2 * os ! i)
         else item3 (rotations plain) i j k)" for j k
    using assms by (simp add: ro rp cell_rot_def emphasis_def)
  moreover have "item2 (translations' out) i k = item2 (translations' plain) i k" for k
    by (simp add: tr tp)
  moreover have "item3 (rotations plain) i j k =
        base_rotation (case tempo af of None \<Rightarrow> 120 | Some v \<Rightarrow> v) i j k" for j k
    using assms(2) by (simp add: rp cell_rot_base)
  ultimately show ?thesis
    using out plain by (simp add: default_config_def)
qed

text \<open>
  Two frames at tempo 120, a strong beat on the first: there the left shoulder (joint
  16) has the X rotation 30 without the emphasis and 36 with it, the left elbow (joint
  18) 10 and 12, and the joints the body does not drive stay at 0.
\<close>

definition two_frames :: features where
  "two_frames = \<lparr>mel = [[0, 0]], chroma = [[0, 0]], onset = Some [1, 0], tempo = Some 120,
     beats = None, duration = None\<rparr>"

theorem emphasis_rule_witness:
  "\<exists>out plain.
     generate default_config two_frames None = Inr out \<and>
     generate default_config (two_frames\<lparr>onset := None\<rparr>) None = Inr plain \<and>
     shape3 (rotations out) = (Suc (Suc 0), 24, 3) \<and>
     (\<forall>j k. item3 (rotations out) 0 j k = item3 (rotations plain) 0 j k * (1 + 0.2 * 1)) \<and>
     (\<forall>k. item2 (translations' out) 0 k = item2 (translations' plain) 0 k) \<and>
     item3 (rotations plain) 0 16 0 = 30 \<and> item3 (rotations out) 0 16 0 = 36 \<and>
     item3 (rotations plain) 0 18 0 = 10 \<and> item3 (rotations out) 0 18 0 = 12 \<and>
     item3 (rotations plain) 0 0 0 = 0 \<and> item3 (rotations out) 0 0 0 = 0"
proof -
  from emphasis_rule [of two_frames "[1, 0]" 0 None] obtain out plain where
    g: "generate default_config two_frames None = Inr out"
      "generate default_config (two_frames\<lparr>onset := None\<rparr>) None = Inr plain"
      "shape3 (rotations out) = (Suc (Suc 0), 24, 3)"
    and sc: "\<And>j k. item3 (rotations out) 0 j k = item3 (rotations plain) 0 j k * (1 + 0.2 * 1)"
    and tr: "\<And>k. item2 (translations' out) 0 k = item2 (translations' plain) 0 k"
    and pl: "\<And>j k. item3 (rotations plain) 0 j k = base_rotation 120 0 j k"
    by (auto simp: two_frames_def ncols_def)
  have "item3 (rotations plain) 0 16 0 = 30" "item3 (rotations plain) 0 18 0 = 10"
    "item3 (rotations plain) 0 0 0 = 0"
    by (simp_all add: pl base_rotation_def)
  then have "item3 (rotations plain) 0 16 0 = 30 \<and> item3 (rotations out) 0 16 0 = 36 \<and>
     item3 (rotations plain) 0 18 0 = 10 \<and> item3 (rotations out) 0 18 0 = 12 \<and>
     item3 (rotations plain) 0 0 0 = 0 \<and> item3 (rotations out) 0 0 0 = 0"
    by (simp add: sc)
  with g sc tr show ?thesis by blast
qed

text \<open>
  Claim C10. When the onset vector is shorter than the frame count, generation succeeds
  (no index error) with one frame per mel column, and every frame at or beyond the
  length of the onset vector has exactly the rotations it has without any onset vector:
  no emphasis is applied there.
\<close>

theorem short_onset_no_emphasis:
  assumes "onset af = Some os" and "length os \<le> i" and "i < ncols (mel af)"
  shows "\<exists>out plain.
     generate default_config af seed = Inr out \<and>
     generate default_config (af\<lparr>onset := None\<rparr>) seed = Inr plain \<and>
     num_frames out = ncols (mel af) \<and>
     (\<forall>j k. item3 (rotations out) i j k = item3 (rotations plain) i j k)"
proof -
  from generate_cells [OF default_joints, of af seed] obtain out where
    out: "generate default_config af seed = Inr out" "num_frames out = ncols (mel af)"
    and ro: "\<And>i j k. item3 (rotations out) i j k =
        (if i < ncols (mel af)
         then cell_rot (case tempo af of None \<Rightarrow> 120 | Some v \<Rightarrow> v)
                (case onset af of None \<Rightarrow> replicate (ncols (mel af)) 0 | Some v \<Rightarrow> v) i j k 0
         else 0)"
    by blast
  let ?af = "af\<lparr>onset := None\<rparr>"
  from generate_cells [OF default_joints, of ?af seed] obtain plain where
    plain: "generate default_config ?af seed = Inr plain"
    and rp: "\<And>i j k. item3 (rotations plain) i j k =
        (if i < ncols (mel ?af)
         then cell_rot (case tempo ?af of None \<Rightarrow> 120 | Some v \<Rightarrow> v)
                (case onset ?af of None \<Rightarrow> replicate (ncols (mel ?af)) 0 | Some v \<Rightarrow> v) i j k 0
         else 0)"
    by blast
  have "item3 (rotations out) i j k = item3 (rotations plain) i j k" for j k
    using assms by (simp add: ro rp cell_rot_def emphasis_def)
  with out plain show ?thesis by simp
qed

text \<open>Three frames and an onset vector of length one.\<close>

definition three_frames :: features where
  "three_frames = \<lparr>mel = [[0, 0, 0]], chroma = [[0, 0, 0]], onset = Some [1], tempo = Some 120,
     beats = None, duration = None\<rparr>"

theorem short_onset_no_emphasis_witness:
  "\<exists>out plain.
     generate default_config three_frames None = Inr out \<and>
     generate default_config (three_frames\<lparr>onset := None\<rparr>) None = Inr plain \<and>
     num_frames out = 3 \<and>
     (\<forall>j k. item3 (rotations out) 2 j k = item3 (rotations plain) 2 j k)"
  using short_onset_no_emphasis [of three_frames "[1]" 2 None]
  by (simp add: three_frames_def ncols_def numeral_3_eq_3)

text \<open>
  Claim C6. With tempo 120 and an onset vector of zeros, at 60 frames per second, the X
  rotation (axis 0) of joint 16 (L\_Shoulder) at frame 15 is within \<open>10\<^sup>-\<^sup>6\<close> of 30, over
  the reals: the phase is \<open>pi\<close> and \<open>sin pi = 0\<close>.
\<close>

theorem shoulder_at_quarter_second:
  assumes "tempo af = Some 120" and "onset af = Some os" and "\<forall>x \<in> set os. x = 0"
    and "15 < ncols (mel af)"
  shows "\<exists>out. generate default_config af seed = Inr out \<and> motion_fps out = 60 \<and>
     \<bar>item3 (rotations out) 15 16 0 - 30\<bar> \<le> 1 / 10 ^ 6"
proof -
  from generate_cells [OF default_joints, of af seed] obtain out where
    out: "generate default_config af seed = Inr out" "motion_fps out = 60"
    and ro: "\<And>i j k. item3 (rotations out) i j k =
        (if i < ncols (mel af)
         then cell_rot (case tempo af of None \<Rightarrow> 120 | Some v \<Rightarrow> v)
                (case onset af of None \<Rightarrow> replicate (ncols (mel af)) 0 | Some v \<Rightarrow> v) i j k 0
         else 0)"
    by blast
  have e: "emphasis os 15 = 1"
    using assms(3) by (auto simp: emphasis_def)
  have "item3 (rotations out) 15 16 0 = 30"
    using assms by (simp add: ro cell_rot_def e rot_writes_def)
  with out show ?thesis by simp
qed

text \<open>Sixteen frames of silence at tempo 120.\<close>

definition sixteen_frames :: features where
  "sixteen_frames = \<lparr>mel = [replicate 16 0], chroma = [replicate 16 0],
     onset = Some (replicate 16 0), tempo = Some 120, beats = None, duration = None\<rparr>"

theorem shoulder_at_quarter_second_witness:
  "\<exists>out. generate default_config sixteen_frames None = Inr out \<and> motion_fps out = 60 \<and>
     \<bar>item3 (rotations out) 15 16 0 - 30\<bar> \<le> 1 / 10 ^ 6"
  using shoulder_at_quarter_second [of sixteen_frames "replicate 16 0" None]
  by (simp add: sixteen_frames_def ncols_def)

section \<open>The synchronizer (claims C2 and C3)\<close>

subsection \<open>The sample points and one row\<close>

lemma length_linspace01 [simp]: "length (linspace01 n) = n"
  by (simp add: linspace01_def)




lemma linspace01_one: "linspace01 1 = [0]"
  by (simp add: linspace01_def)

lemma sequenceE_rows:
  "(\<And>r. r \<in> set rs \<Longrightarrow> \<exists>r'. f r = Inr r' \<and> P r') \<Longrightarrow>
   \<exists>rs'. sequenceE (map f rs) = Inr rs' \<and> length rs' = length rs \<and> (\<forall>r' \<in> set rs'. P r')"
proof (induction rs)
  case Nil
  show ?case by simp
next
  case (Cons r rs)
  from Cons.prems [of r] obtain r' where r': "f r = Inr r'" "P r'" by auto
  from Cons.IH Cons.prems obtain rs' where
    "sequenceE (map f rs) = Inr rs'" "length rs' = length rs" "\<forall>r' \<in> set rs'. P r'"
    by auto
  with r' show ?case by simp
qed


subsection \<open>Whole matrices\<close>


lemma resample_no_columns:
  "m \<noteq> [] \<Longrightarrow> ncols m = 0 \<Longrightarrow> resample_feature m t = Inl ValueError"
  by (cases m) (simp_all add: resample_feature_def ncols_def linspace01_def interp1d_def thenE_def)

lemma resample_one_column_far:
  "m \<noteq> [] \<Longrightarrow> ncols m = 1 \<Longrightarrow> 2 \<le> t \<Longrightarrow> resample_feature m t = Inl ValueError"
proof -
  assume m: "m \<noteq> []" and c: "ncols m = 1" and t: "2 \<le> t"
  then obtain r rs where mr: "m = r # rs" and r: "length r = 1" by (cases m) (auto simp: ncols_def)
  have "1 \<in> set (linspace01 t)"
  proof -
    have "real (t - 1) / real (t - 1) \<in> set (linspace01 t)"
      using t unfolding linspace01_def by (auto intro!: image_eqI [where x = "t - 1"])
    with t show ?thesis by simp
  qed
  then have "list_ex (\<lambda>v. v < hd (linspace01 1) \<or> last (linspace01 1) < v) (linspace01 t)"
    unfolding linspace01_one by (auto simp: list_ex_iff intro!: bexI [where x = 1])
  then show ?thesis
    using r by (simp add: mr resample_feature_def ncols_def interp1d_def interp1d_call_def thenE_def Let_def)
qed

lemma resample_one_column_near:
  assumes rect: "\<forall>r \<in> set m. length r = 1" and t: "t \<le> 1"
  shows "\<exists>m'. resample_feature m t = Inr m' \<and> length m' = length m \<and>
           (\<forall>r \<in> set m'. length r = t)"
proof (cases m)
  case Nil
  then show ?thesis by (simp add: resample_feature_def)
next
  case (Cons r rs)
  with rect have nc: "ncols m = 1" by (simp add: ncols_def)
  have nb: "\<not> list_ex (\<lambda>v. v < hd (linspace01 1) \<or> last (linspace01 1) < v) (linspace01 t)"
    unfolding linspace01_one using t by (auto simp: list_ex_iff linspace01_def)
  have "\<exists>r'. thenE (interp1d (linspace01 1) r) (\<lambda>f. interp1d_call f (linspace01 t)) = Inr r'
          \<and> length r' = t" if "r \<in> set m" for r
    using that rect nb by (simp add: interp1d_def interp1d_call_def thenE_def)
  from sequenceE_rows [of m "\<lambda>r. thenE (interp1d (linspace01 1) r) (\<lambda>f. interp1d_call f (linspace01 t))"
      "\<lambda>r'. length r' = t", OF this]
  show ?thesis by (simp add: resample_feature_def nc Let_def)
qed

lemma resample_to_nothing:
  assumes rect: "\<forall>r \<in> set m. length r = n" and n: "1 \<le> n"
  shows "resample_feature m 0 = Inr (replicate (length m) [])"
proof (cases m)
  case Nil
  then show ?thesis by (simp add: resample_feature_def)
next
  case (Cons r rs)
  with rect have nc: "ncols m = n" by (simp add: ncols_def)
  have row: "thenE (interp1d (linspace01 n) r) (\<lambda>f. interp1d_call f (linspace01 0)) = Inr []"
    if "r \<in> set m" for r
    using that rect n by (simp add: interp1d_def interp1d_call_def thenE_def linspace01_def [of 0])
  have "sequenceE (map (\<lambda>r. thenE (interp1d (linspace01 n) r) (\<lambda>f. interp1d_call f (linspace01 0))) rs')
      = Inr (replicate (length rs') [])" if "set rs' \<subseteq> set m" for rs'
    using that by (induction rs') (simp_all add: row)
  from this [of m] show ?thesis by (simp add: resample_feature_def nc Let_def)
qed

subsection \<open>Rounding to a double\<close>

text \<open>
  Rounding to 53 bits moves a number by at most the fraction \<open>u53\<close> of itself, and a bound
  on a quantity as a multiple of an exact value survives a rounding, a division and a
  product with slightly wider factors.
\<close>

definition u53 :: real where
  "u53 = 1 / 2 ^ 53"

lemma u53_range: "0 < u53" "u53 < 1"
  by (simp_all add: u53_def)

lemma rne_close: "\<bar>of_int (rne y) - y\<bar> \<le> 1 / 2"
proof -
  have "of_int \<lfloor>y\<rfloor> \<le> y" "y < of_int \<lfloor>y\<rfloor> + 1" by linarith+
  then show ?thesis by (auto simp: rne_def Let_def)
qed

lemma fl_error: "\<bar>fl x - x\<bar> \<le> \<bar>x\<bar> * u53"
proof (cases "x = 0")
  case True
  then show ?thesis by (simp add: fl_def)
next
  case False
  define e where "e = \<lfloor>log 2 \<bar>x\<bar>\<rfloor>"
  define s :: real where "s = 2 powr of_int (e - 52)"
  define r :: real where "r = of_int (rne (x / s))"
  have s0: "0 < s" by (simp add: s_def)
  have "of_int e \<le> log 2 \<bar>x\<bar>" by (simp add: e_def)
  then have "2 powr of_int e \<le> 2 powr log 2 \<bar>x\<bar>" by (simp only: powr_le_cancel_iff) 
  then have le: "2 powr of_int e \<le> \<bar>x\<bar>" using False by simp
  have s: "s = 2 powr of_int e / 2 ^ 52"
    by (simp add: s_def powr_diff)
  have fx: "fl x = r * s"
    using False by (simp add: fl_def e_def s_def r_def Let_def)
  have "r * s - x = (r - x / s) * s"
    using s0 by (simp add: field_simps)
  then have "\<bar>fl x - x\<bar> = \<bar>r - x / s\<bar> * s"
    using s0 by (simp add: fx abs_mult)
  also have "\<dots> \<le> 1 / 2 * s"
    using rne_close [of "x / s"] s0 by (intro mult_right_mono) (simp_all add: r_def)
  also have "\<dots> = 2 powr of_int e * u53" by (simp add: s u53_def)
  also have "\<dots> \<le> \<bar>x\<bar> * u53" using le u53_range by (intro mult_right_mono) simp_all
  finally show ?thesis .
qed

lemma fl_bounds:
  assumes "0 \<le> x"
  shows "x * (1 - u53) \<le> fl x" and "fl x \<le> x * (1 + u53)"
proof -
  from fl_error [of x] assms have "\<bar>fl x - x\<bar> \<le> x * u53" by simp
  then have "x - x * u53 \<le> fl x" "fl x \<le> x + x * u53" by linarith+
  then show "x * (1 - u53) \<le> fl x" "fl x \<le> x * (1 + u53)"
    by (simp_all add: algebra_simps)
qed

lemma fl_scaled:
  assumes "0 \<le> x" and "0 \<le> lo" and "x * lo \<le> a" and "a \<le> x * hi"
  shows "x * (lo * (1 - u53)) \<le> fl a \<and> fl a \<le> x * (hi * (1 + u53))"
proof -
  have "0 \<le> x * lo" using assms by simp
  with assms(3) have a0: "0 \<le> a" by linarith
  have "x * lo * (1 - u53) \<le> a * (1 - u53)"
    using assms(3) u53_range by (intro mult_right_mono) simp_all
  moreover have "a * (1 + u53) \<le> x * hi * (1 + u53)"
    using assms(4) u53_range by (intro mult_right_mono) simp_all
  moreover note fl_bounds [OF a0]
  ultimately have "x * lo * (1 - u53) \<le> fl a" "fl a \<le> x * hi * (1 + u53)" by linarith+
  then show ?thesis by (simp add: mult.assoc)
qed

lemma div_scaled:
  fixes x y a b lo1 lo2 hi1 hi2 :: real
  assumes "0 \<le> x" and "0 < y" and "0 \<le> lo1" and "0 < lo2"
    and "x * lo1 \<le> a" and "a \<le> x * hi1" and "y * lo2 \<le> b" and "b \<le> y * hi2"
  shows "x / y * (lo1 / hi2) \<le> a / b \<and> a / b \<le> x / y * (hi1 / lo2)"
proof -
  have "0 \<le> x * lo1" by (simp add: assms(1) assms(3))
  with assms(5) have a0: "0 \<le> a" by linarith
  have yl: "0 < y * lo2" by (simp add: assms(2) assms(4))
  with assms(7) have b0: "0 < b" by linarith
  have "x * lo1 / (y * hi2) \<le> a / b"
    using assms(5) assms(8) b0 \<open>0 \<le> x * lo1\<close> by (intro frac_le) simp_all
  moreover have "a / b \<le> x * hi1 / (y * lo2)"
    using assms(6) assms(7) a0 yl by (intro frac_le) simp_all
  ultimately show ?thesis by simp
qed

lemma mul_scaled:
  fixes x y a b lo1 lo2 hi1 hi2 :: real
  assumes "0 \<le> x" and "0 \<le> y" and "0 \<le> lo1" and "0 \<le> lo2"
    and "x * lo1 \<le> a" and "a \<le> x * hi1" and "y * lo2 \<le> b" and "b \<le> y * hi2"
  shows "x * y * (lo1 * lo2) \<le> a * b \<and> a * b \<le> x * y * (hi1 * hi2)"
proof -
  have xl: "0 \<le> x * lo1" and yl: "0 \<le> y * lo2"
    by (simp_all add: assms(1) assms(2) assms(3) assms(4))
  with assms(5) assms(7) have a0: "0 \<le> a" and b0: "0 \<le> b" by linarith+
  have "(x * lo1) * (y * lo2) \<le> a * b"
    using assms(5) assms(7) xl yl a0 by (intro mult_mono) simp_all
  moreover have "a * b \<le> (x * hi1) * (y * hi2)"
  proof (rule mult_mono)
    show "a \<le> x * hi1" by (rule assms(6))
    show "b \<le> y * hi2" by (rule assms(8))
    show "0 \<le> x * hi1" using a0 assms(6) by linarith
    show "0 \<le> b" by (rule b0)
  qed
  ultimately show ?thesis by (simp add: mult_ac)
qed

lemma fl_eq_0_iff: "fl x = 0 \<longleftrightarrow> x = 0"
proof
  assume z: "fl x = 0"
  show "x = 0"
  proof (rule ccontr)
    assume "x \<noteq> 0"
    then have "\<bar>x\<bar> * u53 < \<bar>x\<bar>" using u53_range by simp
    with fl_error [of x] z show False by simp
  qed
next
  assume "x = 0" then show "fl x = 0" by (simp add: fl_def)
qed

subsection \<open>The frame count, against the exact product\<close>

text \<open>
  The three roundings and the two conversions move the product by at most the fraction
  \<open>2\<^sup>-\<^sup>5\<^sup>0\<close> of itself. The exact product is a multiple of \<open>1 / audio_sr\<close>; so while
  \<open>n * hop_length * target_fps\<close> is below \<open>2\<^sup>4\<^sup>9\<close> the computed product and the exact one have
  the same integer part, unless the exact product is a whole number, where the computed
  one may fall just below it.
\<close>

lemma rounding_factors:
  "1 - 1 / 2 ^ 50 \<le> (1 * (1 - u53) / (1 * (1 + u53)) * (1 - u53)) * (1 * (1 - u53)) * (1 - u53)"
  "(1 * (1 + u53) / (1 * (1 - u53)) * (1 + u53)) * (1 * (1 + u53)) * (1 + u53) \<le> 1 + 1 / 2 ^ 50"
  by (simp_all add: u53_def)

lemma frame_product:
  assumes sr: "0 < audio_sr" and hop: "0 < hop_length"
  shows "\<exists>p. num_motion_frames target_fps n audio_sr hop_length = Inr (nat \<lfloor>p\<rfloor>) \<and>
           real n / (real audio_sr / real hop_length) * real target_fps * (1 - 1 / 2 ^ 50) \<le> p \<and>
           p \<le> real n / (real audio_sr / real hop_length) * real target_fps * (1 + 1 / 2 ^ 50)"
proof -
  define q where "q = real audio_sr / real hop_length"
  define x where "x = real n / q * real target_fps"
  define f where "f = fl q"
  define d where "d = fl (fl (real n) / f)"
  define p where "p = fl (d * fl (real target_fps))"
  have q0: "0 < q" using sr hop by (simp add: q_def)
  then have f0: "f \<noteq> 0" by (simp add: f_def fl_eq_0_iff)
  have nm: "num_motion_frames target_fps n audio_sr hop_length = Inr (nat \<lfloor>p\<rfloor>)"
    using hop f0 by (simp add: num_motion_frames_def Let_def p_def d_def f_def q_def)
  have bf: "q * (1 * (1 - u53)) \<le> f \<and> f \<le> q * (1 * (1 + u53))"
    unfolding f_def using q0 by (intro fl_scaled) simp_all
  have bn: "real n * (1 * (1 - u53)) \<le> fl (real n) \<and> fl (real n) \<le> real n * (1 * (1 + u53))"
    by (intro fl_scaled) simp_all
  have bt: "real target_fps * (1 * (1 - u53)) \<le> fl (real target_fps)
      \<and> fl (real target_fps) \<le> real target_fps * (1 * (1 + u53))"
    by (intro fl_scaled) simp_all
  have lo: "0 < 1 * (1 - u53)" using u53_range by simp
  have br: "real n / q * (1 * (1 - u53) / (1 * (1 + u53))) \<le> fl (real n) / f
      \<and> fl (real n) / f \<le> real n / q * (1 * (1 + u53) / (1 * (1 - u53)))"
    using bn bf q0 lo by (intro div_scaled) simp_all
  have l1: "0 \<le> 1 * (1 - u53) / (1 * (1 + u53))" using u53_range by simp
  have bd: "real n / q * (1 * (1 - u53) / (1 * (1 + u53)) * (1 - u53)) \<le> d
      \<and> d \<le> real n / q * (1 * (1 + u53) / (1 * (1 - u53)) * (1 + u53))"
    unfolding d_def using br q0 l1 by (intro fl_scaled) simp_all
  have l2: "0 \<le> 1 * (1 - u53) / (1 * (1 + u53)) * (1 - u53)" using u53_range by simp
  have bm: "real n / q * real target_fps
        * ((1 * (1 - u53) / (1 * (1 + u53)) * (1 - u53)) * (1 * (1 - u53))) \<le> d * fl (real target_fps)
      \<and> d * fl (real target_fps) \<le> real n / q * real target_fps
        * ((1 * (1 + u53) / (1 * (1 - u53)) * (1 + u53)) * (1 * (1 + u53)))"
    using bd bt q0 l2 lo by (intro mul_scaled) simp_all
  have x0: "0 \<le> x" using q0 by (simp add: x_def)
  have l3: "0 \<le> (1 * (1 - u53) / (1 * (1 + u53)) * (1 - u53)) * (1 * (1 - u53))"
    using u53_range by simp
  have bp: "x * ((1 * (1 - u53) / (1 * (1 + u53)) * (1 - u53)) * (1 * (1 - u53)) * (1 - u53)) \<le> p
      \<and> p \<le> x * ((1 * (1 + u53) / (1 * (1 - u53)) * (1 + u53)) * (1 * (1 + u53)) * (1 + u53))"
    unfolding p_def using bm x0 l3 unfolding x_def by (intro fl_scaled) simp_all
  have "x * (1 - 1 / 2 ^ 50) \<le> p"
    using bp mult_left_mono [OF rounding_factors(1) x0] by linarith
  moreover have "p \<le> x * (1 + 1 / 2 ^ 50)"
    using bp mult_left_mono [OF rounding_factors(2) x0] by linarith
  ultimately show ?thesis
    using nm unfolding x_def q_def by blast
qed

lemma floor_near:
  fixes x p :: real
  assumes s: "0 < s" and xs: "x * real s = real a"
    and lo: "x - 1 / real s < p" and hi: "p < x + 1 / real s" and p0: "0 \<le> p"
  shows "nat \<lfloor>p\<rfloor> = nat \<lfloor>x\<rfloor> \<or> (of_int \<lfloor>x\<rfloor> = x \<and> nat \<lfloor>p\<rfloor> + 1 = nat \<lfloor>x\<rfloor>)"
proof -
  define k where "k = \<lfloor>x\<rfloor>"
  have s1: "1 / real s \<le> 1" using s by simp
  have kx: "of_int k \<le> x" "x < of_int k + 1" by (simp_all add: k_def)
  show ?thesis
  proof (cases "x = of_int k")
    case True
    with lo hi s1 have "of_int k - 1 < p" "p < of_int k + 1" by linarith+
    then have "\<lfloor>p\<rfloor> = k \<or> \<lfloor>p\<rfloor> = k - 1" by linarith
    moreover have "0 \<le> \<lfloor>p\<rfloor>" using p0 by simp
    ultimately show ?thesis using True by (auto simp: k_def [symmetric])
  next
    case False
    with kx have gt: "of_int k < x" by simp
    have "real_of_int (int a - k * int s) = (x - of_int k) * real s"
      by (simp add: xs [symmetric] algebra_simps)
    also have "\<dots> > 0" using gt s by simp
    finally have "1 \<le> int a - k * int s" by linarith
    then have "1 \<le> real_of_int (int a - k * int s)" by linarith
    then have "1 \<le> (x - of_int k) * real s"
      by (simp add: xs [symmetric] algebra_simps)
    then have a1: "1 / real s \<le> x - of_int k"
      using s by (simp add: field_simps)
    have "real_of_int ((k + 1) * int s - int a) = (of_int k + 1 - x) * real s"
      by (simp add: xs [symmetric] algebra_simps)
    also have "\<dots> > 0" using kx s by simp
    finally have "1 \<le> (k + 1) * int s - int a" by linarith
    then have "1 \<le> real_of_int ((k + 1) * int s - int a)" by linarith
    then have "1 \<le> (of_int k + 1 - x) * real s"
      by (simp add: xs [symmetric] algebra_simps)
    then have a2: "1 / real s \<le> of_int k + 1 - x"
      using s by (simp add: field_simps)
    from a1 a2 lo hi have "of_int k < p" "p < of_int k + 1" by linarith+
    then have "\<lfloor>p\<rfloor> = k" by linarith
    then show ?thesis by (simp add: k_def)
  qed
qed

lemma num_motion_frames_value:
  assumes sr: "0 < audio_sr" and hop: "0 < hop_length"
    and small: "n * hop_length * target_fps < 2 ^ 49"
  shows "\<exists>t. num_motion_frames target_fps n audio_sr hop_length = Inr t \<and>
     (t = nat \<lfloor>real n / (real audio_sr / real hop_length) * real target_fps\<rfloor> \<or>
      of_int \<lfloor>real n / (real audio_sr / real hop_length) * real target_fps\<rfloor>
        = real n / (real audio_sr / real hop_length) * real target_fps \<and>
      t + 1 = nat \<lfloor>real n / (real audio_sr / real hop_length) * real target_fps\<rfloor>)"
proof -
  define x where "x = real n / (real audio_sr / real hop_length) * real target_fps"
  from frame_product [OF sr hop, of target_fps n] obtain p where
    nm: "num_motion_frames target_fps n audio_sr hop_length = Inr (nat \<lfloor>p\<rfloor>)"
    and lo: "x * (1 - 1 / 2 ^ 50) \<le> p" and hi: "p \<le> x * (1 + 1 / 2 ^ 50)"
    unfolding x_def by blast
  have xs: "x * real audio_sr = real (n * hop_length * target_fps)"
    using sr hop by (simp add: x_def)
  have x0: "0 \<le> x" using sr hop by (simp add: x_def)
  define c where "c = x / 2 ^ 50"
  define r where "r = 1 / real audio_sr"
  have r0: "0 < r" using sr by (simp add: r_def)
  have "real (n * hop_length * target_fps) < 2 ^ 49"
    using small by (metis of_nat_less_iff of_nat_numeral of_nat_power)
  then have "x * real audio_sr < 2 ^ 49" by (simp only: xs)
  then have "x < 2 ^ 49 * r" using sr by (simp add: field_simps r_def)
  then have "c < 2 ^ 49 * r / 2 ^ 50" unfolding c_def by (rule divide_strict_right_mono) simp
  also have "\<dots> = r / 2" by simp
  also have "\<dots> < r" using r0 by simp
  finally have e: "c < r" .
  have c0: "0 \<le> c" using x0 by (simp add: c_def)
  have "x * (1 - 1 / 2 ^ 50) = x - c" "x * (1 + 1 / 2 ^ 50) = x + c"
    by (simp_all add: algebra_simps c_def)
  with lo hi have "x - c \<le> p" "p \<le> x + c" by simp_all
  with e have b: "x - 1 / real audio_sr < p" "p < x + 1 / real audio_sr"
    unfolding r_def [symmetric] by linarith+
  have "c \<le> x" using x0 by (simp add: c_def field_simps)
  with \<open>x - c \<le> p\<close> have p0: "0 \<le> p" by linarith
  from floor_near [OF sr xs b p0] nm show ?thesis
    unfolding x_def by blast
qed

subsection \<open>The frame count at some inputs\<close>

lemma num_motion_frames_fraction:
  assumes "0 < audio_sr" and "0 < hop_length" and "n * hop_length * target_fps < 2 ^ 49"
    and "of_int \<lfloor>real n / (real audio_sr / real hop_length) * real target_fps\<rfloor>
           \<noteq> real n / (real audio_sr / real hop_length) * real target_fps"
  shows "num_motion_frames target_fps n audio_sr hop_length =
           Inr (nat \<lfloor>real n / (real audio_sr / real hop_length) * real target_fps\<rfloor>)"
  using num_motion_frames_value [OF assms(1) assms(2) assms(3)] assms(4) by auto

lemma num_motion_frames_no_columns:
  "0 < audio_sr \<Longrightarrow> 0 < hop_length \<Longrightarrow>
   num_motion_frames target_fps 0 audio_sr hop_length = Inr 0"
  by (simp add: num_motion_frames_def Let_def fl_eq_0_iff fl_def [of 0])

text \<open>At 48000/512: 0.64 frames, 1.92 frames and 2.56 frames at 60 fps.\<close>

lemma frames_1_at_60: "num_motion_frames 60 1 48000 512 = Inr 0"
  using num_motion_frames_fraction [of 48000 512 1 60] by simp



text \<open>One column at 48000/512: 1.0667 frames at 100 fps and 2.1333 frames at 200 fps.\<close>

lemma frames_1_at_100: "num_motion_frames 100 1 48000 512 = Inr 1"
  using num_motion_frames_fraction [of 48000 512 1 100] by simp

lemma frames_1_at_200: "num_motion_frames 200 1 48000 512 = Inr 2"
  using num_motion_frames_fraction [of 48000 512 1 200] by simp

text \<open>
  A double, evaluated: when \<open>s\<close> is the power of two for which \<open>\<bar>x\<bar> / s\<close> lies between
  \<open>2\<^sup>5\<^sup>2\<close> and \<open>2\<^sup>5\<^sup>3\<close>, \<open>fl x\<close> is \<open>x / s\<close> rounded to an integer, times \<open>s\<close>.
\<close>

lemma fl_eval:
  assumes "s = 2 powr of_int k" and "2 ^ 52 \<le> \<bar>x\<bar> / s" and "\<bar>x\<bar> / s < 2 ^ 53"
  shows "fl x = of_int (rne (x / s)) * s"
proof -
  have s: "0 < s" using assms(1) by simp
  have x: "x \<noteq> 0" using assms(2) s by auto
  have a: "0 < \<bar>x\<bar>" using x by simp
  have "2 powr of_int (k + 52) = s * 2 ^ 52"
    using assms(1) by (simp add: powr_add powr_numeral)
  hence lo: "2 powr of_int (k + 52) \<le> \<bar>x\<bar>"
    using assms(2) s by (simp add: field_simps)
  have "2 powr (of_int (k + 52) + 1) = s * 2 ^ 53"
    using assms(1) by (simp add: powr_add powr_numeral)
  hence hi: "\<bar>x\<bar> < 2 powr (of_int (k + 52) + 1)"
    using assms(3) s by (simp add: field_simps)
  have "\<lfloor>log 2 \<bar>x\<bar>\<rfloor> = k + 52"
  proof (rule floor_unique)
    show "of_int (k + 52) \<le> log 2 \<bar>x\<bar>" using lo a by (simp only: le_log_iff)
    show "log 2 \<bar>x\<bar> < of_int (k + 52) + 1" using hi a by (simp only: log_less_iff)
  qed
  thus ?thesis using x assms(1) by (simp add: fl_def Let_def)
qed

text \<open>
  Two native columns at sample rate 25 and hop length 7, at 25 fps: the exact product is
  14, the three roundings leave 13.999999999999998, and the frame count is 13.
\<close>

lemma fl_1: "fl 1 = 1"
  using fl_eval [where x = 1 and s = "1 / 2 ^ 52" and k = "- 52"]
  by (simp add: powr_minus powr_numeral rne_def Let_def field_simps)



lemma fl_49: "fl 49 = 49"
  using fl_eval [where x = 49 and s = "1 / 2 ^ 47" and k = "- 47"]
  by (simp add: powr_minus powr_numeral rne_def Let_def field_simps)

lemma fl_98: "fl 98 = 98"
  using fl_eval [where x = 98 and s = "1 / 2 ^ 46" and k = "- 46"]
  by (simp add: powr_minus powr_numeral rne_def Let_def field_simps)





text \<open>
  One native column at sample rate 49 and hop length 1, at 98 fps: the exact product is
  2, the roundings leave 1.9999999999999998, and the frame count is 1.
\<close>

lemma fl_1_by_49: "fl (1 / 49) = 5882252574524729 / 2 ^ 58"
  using fl_eval [where x = "1 / 49" and s = "1 / 2 ^ 58" and k = "- 58"]
  by (simp add: powr_minus powr_numeral rne_def Let_def field_simps)

lemma fl_duration_98: "fl (5882252574524729 / 2 ^ 58 * 98) = 9007199254740991 / 2 ^ 52"
  using fl_eval [where x = "5882252574524729 / 2 ^ 58 * 98" and s = "1 / 2 ^ 52" and k = "- 52"]
  by (simp add: powr_minus powr_numeral rne_def Let_def field_simps)

lemma frames_below_two: "num_motion_frames 98 1 49 1 = Inr 1"
proof -
  have "num_motion_frames 98 1 49 1
      = Inr (nat \<lfloor>fl (fl (fl 1 / fl 49) * fl 98)\<rfloor>)"
    by (simp add: num_motion_frames_def Let_def fl_eq_0_iff)
  also have "fl (fl (fl 1 / fl 49) * fl 98) = 9007199254740991 / 2 ^ 52"
    by (simp only: fl_1 fl_49 fl_98 fl_1_by_49 fl_duration_98)
  also have "nat \<lfloor>9007199254740991 / 2 ^ 52 :: real\<rfloor> = 1"
    by simp
  finally show ?thesis .
qed

subsection \<open>The claims about the frame count and about too few samples\<close>




text \<open>
  Claim C3, as amended. The code has no check of the native column count and no
  SynchronizationError; what fails is the interpolation library. Let \<open>t\<close> be the frame
  count the code computes (sample rate, hop length and frame rate below \<open>2\<^sup>5\<^sup>3\<close>). With
  \<open>n = 0\<close> columns, and with \<open>n = 1\<close> column when \<open>t\<close> is at least 2, synchronization fails
  with ValueError; with \<open>n = 1\<close> column and \<open>t\<close> equal to 0 or 1 it returns streams with the
  channels of the input and \<open>t\<close> columns each.
\<close>

theorem sync_too_few_samples:
  assumes ne: "mel0 \<noteq> []"
    and rect: "\<forall>r \<in> set mel0. length r = n" "\<forall>r \<in> set chroma0. length r = n"
      "length onset0 = n"
    and range: "audio_sr < 2 ^ 53" "hop_length < 2 ^ 53" "target_fps < 2 ^ 53"
    and t: "num_motion_frames target_fps n audio_sr hop_length = Inr t"
  shows "(n = 0 \<or> n = 1 \<and> 2 \<le> t \<longrightarrow>
            sync_to_fps target_fps mel0 chroma0 onset0 audio_sr hop_length = Inl ValueError) \<and>
         (n = 1 \<and> t \<le> 1 \<longrightarrow>
            (\<exists>out os.
               sync_to_fps target_fps mel0 chroma0 onset0 audio_sr hop_length = Inr out \<and>
               onset out = Some os \<and>
               length (mel out) = length mel0 \<and> length (chroma out) = length chroma0 \<and>
               (\<forall>r \<in> set (mel out). length r = t) \<and>
               (\<forall>r \<in> set (chroma out). length r = t) \<and>
               length os = t))"
proof -
  from ne rect have nc: "ncols mel0 = n" by (cases mel0) (simp_all add: ncols_def)
  have fails: "sync_to_fps target_fps mel0 chroma0 onset0 audio_sr hop_length = Inl ValueError"
    if "n = 0 \<or> n = 1 \<and> 2 \<le> t"
  proof -
    from that have "resample_feature mel0 t = Inl ValueError"
      using resample_no_columns [of mel0 t] resample_one_column_far [of mel0 t] ne nc
      by auto
    then show ?thesis
      using t by (simp add: sync_to_fps_def thenE_def nc)
  qed
  have works: "\<exists>out os.
       sync_to_fps target_fps mel0 chroma0 onset0 audio_sr hop_length = Inr out \<and>
       onset out = Some os \<and>
       length (mel out) = length mel0 \<and> length (chroma out) = length chroma0 \<and>
       (\<forall>r \<in> set (mel out). length r = t) \<and>
       (\<forall>r \<in> set (chroma out). length r = t) \<and>
       length os = t"
    if "n = 1 \<and> t \<le> 1"
  proof -
    from that rect resample_one_column_near [of mel0 t] obtain m' where
      m': "resample_feature mel0 t = Inr m'" "length m' = length mel0"
        "\<forall>r \<in> set m'. length r = t"
      by auto
    from that rect resample_one_column_near [of chroma0 t] obtain c' where
      c': "resample_feature chroma0 t = Inr c'" "length c' = length chroma0"
        "\<forall>r \<in> set c'. length r = t"
      by auto
    from that rect resample_one_column_near [of "[onset0]" t] obtain o' where
      o': "resample_feature [onset0] t = Inr o'" "length o' = 1" "\<forall>r \<in> set o'. length r = t"
      by auto
    from o'(2,3) have ol: "length (hd o') = t" by (cases o') simp_all
    let ?out = "\<lparr>mel = m', chroma = c', onset = Some (hd o'), tempo = None, beats = None,
       duration = None\<rparr>"
    have s: "sync_to_fps target_fps mel0 chroma0 onset0 audio_sr hop_length = Inr ?out"
      using t m'(1) c'(1) o'(1) by (simp add: sync_to_fps_def thenE_def nc)
    show ?thesis
    proof (intro exI conjI)
      show "sync_to_fps target_fps mel0 chroma0 onset0 audio_sr hop_length = Inr ?out"
        by (rule s)
      show "onset ?out = Some (hd o')" by simp
      show "length (mel ?out) = length mel0" using m'(2) by simp
      show "length (chroma ?out) = length chroma0" using c'(2) by simp
      show "\<forall>r \<in> set (mel ?out). length r = t" using m'(3) by simp
      show "\<forall>r \<in> set (chroma ?out). length r = t" using c'(3) by simp
      show "length (hd o') = t" by (rule ol)
    qed
  qed
  from fails works show ?thesis by blast
qed

text \<open>
  One native column at 48000/512: two target frames at 200 fps (failure), one at 100 fps
  (one column). One native column at sample rate 49 and hop length 1, at 98 fps: the
  exact product is 2, the frame count the code computes is 1, and the synchronizer
  returns one column.
\<close>

theorem sync_too_few_samples_witness:
  "sync_to_fps 200 [[5]] [[6]] [7] 48000 512 = Inl ValueError \<and>
   (\<exists>out os. sync_to_fps 100 [[5]] [[6]] [7] 48000 512 = Inr out \<and> onset out = Some os \<and>
      length (mel out) = 1 \<and> length (chroma out) = 1 \<and>
      list_all (\<lambda>r. length r = 1) (mel out) \<and> list_all (\<lambda>r. length r = 1) (chroma out) \<and>
      length os = 1) \<and>
   (\<exists>out os. sync_to_fps 98 [[5]] [[6]] [7] 49 1 = Inr out \<and> onset out = Some os \<and>
      length (mel out) = 1 \<and> length (chroma out) = 1 \<and>
      list_all (\<lambda>r. length r = 1) (mel out) \<and> list_all (\<lambda>r. length r = 1) (chroma out) \<and>
      length os = 1)"
  using sync_too_few_samples [of "[[5]]" 1 "[[6]]" "[7]" 48000 512 200 2]
    sync_too_few_samples [of "[[5]]" 1 "[[6]]" "[7]" 48000 512 100 1]
    sync_too_few_samples [of "[[5]]" 1 "[[6]]" "[7]" 49 1 98 1]
  by (simp add: list_all_iff frames_1_at_200 [unfolded One_nat_def]
      frames_1_at_100 [unfolded One_nat_def] frames_below_two [unfolded One_nat_def])

text \<open>
  Claim C3 as stated fails: one native column at 48000/512 and 60 fps is 0.64 frames,
  the target frame count is 0, and the synchronizer returns empty streams without any
  error.
\<close>

theorem sync_single_sample_counterexample:
  "sync_to_fps 60 [[5]] [[6]] [7] 48000 512 =
     Inr \<lparr>mel = [[]], chroma = [[]], onset = Some [], tempo = None, beats = None,
          duration = None\<rparr>"
proof -
  have nc: "ncols [[5 :: real]] = 1" by (simp add: ncols_def)
  have s: "sync_to_fps 60 [[5]] [[6]] [7] 48000 512 =
     thenE (resample_feature [[5]] 0) (\<lambda>mel_resampled.
     thenE (resample_feature [[6]] 0) (\<lambda>chroma_resampled.
     thenE (resample_feature [[7]] 0) (\<lambda>onset_resampled.
       Inr \<lparr>mel = mel_resampled, chroma = chroma_resampled,
            onset = Some (hd onset_resampled), tempo = None, beats = None,
            duration = None\<rparr>)))"
    by (simp only: sync_to_fps_def nc frames_1_at_60 thenE_def sum.case)
  show ?thesis
    unfolding s
    by (simp add: thenE_def resample_feature_def ncols_def linspace01_def interp1d_def
        interp1d_call_def)
qed

section \<open>The exported file (claims C1, C4 and C7)\<close>

subsection \<open>A successful export\<close>

lemma write_hierarchy_ok: "\<exists>h. write_hierarchy fmt = Inr h"
  using write_joint_reads [of 0 fmt 0]
  by (auto simp: write_hierarchy_def thenE_def length_tables)

lemma writable_say [simp]: "writable (say m w) = writable w"
  by (simp add: say_def)

lemma files_say [simp]: "files (say m w) = files w"
  by (simp add: say_def)

text \<open>
  The state of the world before a first export, and the exporter the application
  constructs (\<^verbatim>\<open>BVHExporter(fps=60)\<close>).
\<close>

definition empty_disk :: world where
  "empty_disk = \<lparr>files = (\<lambda>p. None), writable = (\<lambda>p. True), printed = []\<rparr>"

definition exporter60 :: exporter where
  "exporter60 = \<lparr>fps = 60, frame_time = 1 / 60\<rparr>"

lemma BVHExporter_60: "BVHExporter 60 = Inr exporter60"
  by (simp add: BVHExporter_def exporter60_def)

lemma export_ok:
  assumes "shape3 motion_data = (n, j, k)"
    and "fps self \<noteq> 0" and "writable w output_path"
    and "write_hierarchy fmt = Inr hierarchy"
    and "write_motion fmt self motion_data
           (case ts of None \<Rightarrow> zeros2 (n, 3) | Some t \<Rightarrow> t) = Inr motion"
  shows "export fmt self motion_data output_path ts w =
     Inr \<lparr>files = (files w)(output_path \<mapsto> hierarchy @ motion),
          writable = writable w,
          printed = printed w
            @ (if j \<noteq> 24 then [JointCountWarning j] else [])
            @ [ExportingBanner, FramesInfo n, FpsInfo (fps self),
               DurationInfo (real n / real (fps self)), ExportedTo output_path]\<rparr>"
  using assms by (simp add: export_def Let_def thenE_def say_def)

lemma str_nat_0: "str_nat 0 = ''0''"
  by code_simp

lemma write_motion_no_frames:
  "fst (shape3 motion_data) = 0 \<Longrightarrow>
   write_motion fmt self motion_data ts =
     Inr [''MOTION'', ''Frames: 0'', ''Frame Time: '' @ fmt (frame_time self)]"
  by (simp add: write_motion_def Let_def thenE_def str_nat_0)


lemma concat_replicate_replicate:
  "concat (replicate j (replicate k x)) = replicate (j * k) x"
  by (induction j) (simp_all add: replicate_add)

lemma frame_data_zeros:
  "frame_data (zeros3 (Suc n, j, k)) (zeros2 (Suc n, 3)) 0 = Inr (replicate (3 + j * k) 0)"
  by (simp add: frame_data_def zeros3_def zeros2_def map_replicate_const
      concat_replicate_replicate replicate_add [symmetric] del: replicate_Suc)

lemma str_nat_1: "str_nat 1 = ''1''"
  by code_simp

lemma write_motion_zeros:
  "write_motion fmt self (zeros3 (1, j, k)) (zeros2 (1, 3)) =
     Inr [''MOTION'', ''Frames: 1'', ''Frame Time: '' @ fmt (frame_time self),
          join '' '' (map fmt (replicate (3 + j * k) 0))]"
  using frame_data_zeros [of 0 j k]
  by (simp add: write_motion_def Let_def thenE_def str_nat_1 [unfolded One_nat_def] zeros3_def)

text \<open>
  Claim C4, evaluated on the code. Motion data of one frame with 20 joints, and with 30
  joints, exported to a writable path at 60 fps: the export returns, the warning is
  printed first and the file is written; but nothing is adjusted or truncated. The one
  frame line carries \<open>3 + 3 * 20 = 63\<close> values for 20 joints and \<open>3 + 3 * 30 = 93\<close> values for
  30 joints, under a hierarchy that declares \<open>6 + 23 * 3 = 75\<close> channels.
\<close>

theorem export_other_joint_counts:
  "\<exists>hierarchy.
     write_hierarchy fmt = Inr hierarchy \<and>
     export fmt exporter60 (zeros3 (1, 20, 3)) ''out.bvh'' None empty_disk =
       Inr \<lparr>files = (\<lambda>p. None)(''out.bvh'' \<mapsto>
               hierarchy @ [''MOTION'', ''Frames: 1'', ''Frame Time: '' @ fmt (1 / 60),
                            join '' '' (map fmt (replicate 63 0))]),
            writable = (\<lambda>p. True),
            printed = [JointCountWarning 20, ExportingBanner, FramesInfo 1, FpsInfo 60,
                       DurationInfo (1 / 60), ExportedTo ''out.bvh'']\<rparr> \<and>
     export fmt exporter60 (zeros3 (1, 30, 3)) ''out.bvh'' None empty_disk =
       Inr \<lparr>files = (\<lambda>p. None)(''out.bvh'' \<mapsto>
               hierarchy @ [''MOTION'', ''Frames: 1'', ''Frame Time: '' @ fmt (1 / 60),
                            join '' '' (map fmt (replicate 93 0))]),
            writable = (\<lambda>p. True),
            printed = [JointCountWarning 30, ExportingBanner, FramesInfo 1, FpsInfo 60,
                       DurationInfo (1 / 60), ExportedTo ''out.bvh'']\<rparr>"
proof -
  obtain hierarchy where h: "write_hierarchy fmt = Inr hierarchy"
    using write_hierarchy_ok by blast
  have "export fmt exporter60 (zeros3 (1, j, 3)) ''out.bvh'' None empty_disk =
       Inr \<lparr>files = (\<lambda>p. None)(''out.bvh'' \<mapsto>
               hierarchy @ [''MOTION'', ''Frames: 1'', ''Frame Time: '' @ fmt (1 / 60),
                            join '' '' (map fmt (replicate (3 + j * 3) 0))]),
            writable = (\<lambda>p. True),
            printed = (if j \<noteq> 24 then [JointCountWarning j] else [])
                @ [ExportingBanner, FramesInfo 1, FpsInfo 60,
                       DurationInfo (1 / 60), ExportedTo ''out.bvh'']\<rparr>" for j
    using export_ok [where motion_data = "zeros3 (1, j, 3)" and n = 1 and j = j and k = 3
        and self = exporter60 and w = empty_disk and output_path = "''out.bvh''" and fmt = fmt
        and hierarchy = hierarchy and ts = None
        and motion = "[''MOTION'', ''Frames: 1'', ''Frame Time: '' @ fmt (1 / 60),
                            join '' '' (map fmt (replicate (3 + j * 3) 0))]"]
      h write_motion_zeros [of fmt exporter60 j 3]
    by (simp add: zeros3_def exporter60_def empty_disk_def)
  from this [of 20] this [of 30] h show ?thesis by simp
qed

subsection \<open>The order of the joints in a frame line\<close>

lemma upt_3: "[0..<3] = [0, 1, 2]"
  by code_simp

text \<open>One frame in which every rotation value is the index of its joint.\<close>

definition joint_numbered :: ndarray3 where
  "joint_numbered = \<lparr>shape3 = (1, 24, 3), item3 = (\<lambda>frame joint axis. real joint)\<rparr>"

text \<open>
  Claim C1, evaluated on the code. The HIERARCHY block declares the joints depth-first:
  0, 1, 4, 7, 10, 2, 5, ... The frame line lists the three translation values and then
  the rotations by ascending joint index: 0, 1, 2, 3, 4, ... So the third rotation
  triple of a line is that of joint 2 (R\_Hip), where the hierarchy has declared the
  channels of joint 4 (L\_Knee).
\<close>

theorem motion_joint_order:
  "\<exists>hierarchy root.
     write_hierarchy fmt = Inr hierarchy \<and>
     read_blocks hierarchy = Some ([''HIERARCHY''], [root]) \<and>
     map title (filter (\<lambda>b. title b \<noteq> ''End Site'') (blocks_of root)) =
       map (\<lambda>j. (if j = 0 then ''ROOT '' else ''JOINT '') @ JOINT_NAMES ! j)
         [0, 1, 4, 7, 10, 2, 5, 8, 11, 3, 6, 9, 12, 15, 13, 16, 18, 20, 22, 14, 17, 19, 21, 23] \<and>
     frame_data joint_numbered (zeros2 (1, 3)) 0 =
       Inr ([0, 0, 0] @ concat (map (\<lambda>j. [real j, real j, real j])
         [0, 1, 2, 3, 4, 5, 6, 7, 8, 9, 10, 11, 12, 13, 14, 15, 16, 17, 18, 19, 20, 21, 22, 23]))"
proof -
  let ?root = "skeleton_block fmt 0"
  obtain ls where ls: "write_joint fmt 0 0 = Inr ls" "reads_as ls [?root]"
    using write_joint_reads [of 0 fmt 0] by (auto simp: length_tables)
  have w: "write_hierarchy fmt = Inr (''HIERARCHY'' # ls)"
    by (simp add: write_hierarchy_def thenE_def ls)
  have r: "read_blocks (''HIERARCHY'' # ls) = Some ([''HIERARCHY''], [?root])"
    using ls(2) by (simp add: read_blocks_def reads_as_def strip_indent_def)
  have order: "map title (filter (\<lambda>b. title b \<noteq> ''End Site'') (blocks_of ?root)) =
       map (\<lambda>j. (if j = 0 then ''ROOT '' else ''JOINT '') @ JOINT_NAMES ! j)
         [0, 1, 4, 7, 10, 2, 5, 8, 11, 3, 6, 9, 12, 15, 13, 16, 18, 20, 22, 14, 17, 19, 21, 23]"
    by (simp add: skeleton_blocks title_skeleton_block the_end_site_def)
  have line: "frame_data joint_numbered (zeros2 (1, 3)) 0 =
       Inr ([0, 0, 0] @ concat (map (\<lambda>j. [real j, real j, real j])
         [0, 1, 2, 3, 4, 5, 6, 7, 8, 9, 10, 11, 12, 13, 14, 15, 16, 17, 18, 19, 20, 21, 22, 23]))"
    by (simp add: frame_data_def joint_numbered_def zeros2_def upt_24 upt_3)
  from w r order line show ?thesis by blast
qed

subsection \<open>No frames at all\<close>

lemma generate_no_frames:
  assumes "ncols (mel af) = 0"
  shows "\<exists>mo j. generate default_config af seed = Inr mo \<and> num_frames mo = 0 \<and>
           shape3 (rotations mo) = (0, j, 3)"
  using generate_cells [OF default_joints, of af seed] assms by auto

text \<open>
  Claim C7, as amended. When every stream has at least one native column and the
  computed target frame count is 0, the synchronizer returns streams without columns,
  the generator returns a motion of 0 frames from them, and the exporter (frame rate
  not 0, path writable) writes the hierarchy followed by \<open>MOTION\<close>, \<open>Frames: 0\<close> and the
  frame time, and no frame line; nothing raises.
\<close>

theorem zero_duration_pipeline:
  assumes "mel0 \<noteq> []" and "\<forall>r \<in> set mel0. length r = n" and "\<forall>r \<in> set chroma0. length r = n"
    and "length onset0 = n" and "1 \<le> n"
    and "num_motion_frames target_fps n audio_sr hop_length = Inr 0"
    and "fps self \<noteq> 0" and "writable w output_path"
  shows "\<exists>out mo hierarchy w'.
     sync_to_fps target_fps mel0 chroma0 onset0 audio_sr hop_length = Inr out \<and>
     mel out = replicate (length mel0) [] \<and> chroma out = replicate (length chroma0) [] \<and>
     onset out = Some [] \<and>
     generate default_config (out\<lparr>tempo := tp, beats := b, duration := d\<rparr>) seed = Inr mo \<and>
     num_frames mo = 0 \<and>
     write_hierarchy fmt = Inr hierarchy \<and>
     export fmt self (rotations mo) output_path (Some (translations' mo)) w = Inr w' \<and>
     files w' output_path =
       Some (hierarchy @ [''MOTION'', ''Frames: 0'', ''Frame Time: '' @ fmt (frame_time self)])"
proof -
  from assms have nc: "ncols mel0 = n" by (cases mel0) (simp_all add: ncols_def)
  let ?out = "\<lparr>mel = replicate (length mel0) [], chroma = replicate (length chroma0) [],
     onset = Some [], tempo = None, beats = None, duration = None\<rparr>"
  have s: "sync_to_fps target_fps mel0 chroma0 onset0 audio_sr hop_length = Inr ?out"
    using assms resample_to_nothing [of mel0 n] resample_to_nothing [of chroma0 n]
      resample_to_nothing [of "[onset0]" n]
    by (simp add: sync_to_fps_def thenE_def nc)
  have "ncols (mel (?out\<lparr>tempo := tp, beats := b, duration := d\<rparr>)) = 0"
    using assms(1) by (cases mel0) (simp_all add: ncols_def)
  from generate_no_frames [OF this, of seed] obtain mo j where
    mo: "generate default_config (?out\<lparr>tempo := tp, beats := b, duration := d\<rparr>) seed = Inr mo"
      "num_frames mo = 0" "shape3 (rotations mo) = (0, j, 3)"
    by blast
  obtain hierarchy where h: "write_hierarchy fmt = Inr hierarchy"
    using write_hierarchy_ok by blast
  have m: "write_motion fmt self (rotations mo) (translations' mo) =
     Inr [''MOTION'', ''Frames: 0'', ''Frame Time: '' @ fmt (frame_time self)]"
    by (rule write_motion_no_frames) (simp add: mo)
  from export_ok [OF mo(3) assms(7) assms(8) h, where ts = "Some (translations' mo)"] m
  have "\<exists>w'. export fmt self (rotations mo) output_path (Some (translations' mo)) w = Inr w' \<and>
     files w' output_path =
       Some (hierarchy @ [''MOTION'', ''Frames: 0'', ''Frame Time: '' @ fmt (frame_time self)])"
    by simp
  with s mo h show ?thesis by auto
qed

text \<open>One native column at 48000/512 and 60 fps: 0.64 frames.\<close>

theorem zero_duration_pipeline_witness:
  "\<exists>out mo hierarchy w'.
     sync_to_fps 60 [[5]] [[6]] [7] 48000 512 = Inr out \<and>
     mel out = [[]] \<and> chroma out = [[]] \<and> onset out = Some [] \<and>
     generate default_config (out\<lparr>tempo := Some 120, beats := Some [], duration := Some 0\<rparr>) None
       = Inr mo \<and>
     num_frames mo = 0 \<and>
     write_hierarchy (\<lambda>v. ''0.000000'') = Inr hierarchy \<and>
     export (\<lambda>v. ''0.000000'') exporter60 (rotations mo) ''a.bvh'' (Some (translations' mo))
       empty_disk = Inr w' \<and>
     files w' ''a.bvh'' = Some (hierarchy @ [''MOTION'', ''Frames: 0'', ''Frame Time: 0.000000''])"
  using zero_duration_pipeline [where ?mel0.0 = "[[5]]" and ?chroma0.0 = "[[6]]"
      and ?onset0.0 = "[7]" and n = 1 and target_fps = 60 and audio_sr = 48000
      and hop_length = 512 and self = exporter60 and w = empty_disk
      and output_path = "''a.bvh''" and fmt = "\<lambda>v. ''0.000000''" and tp = "Some 120"
      and b = "Some []" and d = "Some 0" and seed = None]
  by (simp add: frames_1_at_60 [unfolded One_nat_def] exporter60_def empty_disk_def)

text \<open>
  Claim C7 as stated fails for \<open>N = 0\<close>: on streams without any column the interpolation
  library refuses to build an interpolant, and the synchronizer raises ValueError.
\<close>

theorem sync_no_samples_counterexample:
  "sync_to_fps 60 (replicate 128 []) (replicate 12 []) [] 48000 512 = Inl ValueError"
proof -
  have "resample_feature (replicate 128 []) t = Inl ValueError" for t
    by (rule resample_no_columns) (simp_all add: ncols_def eval_nat_numeral)
  then show ?thesis
    by (simp add: sync_to_fps_def num_motion_frames_no_columns thenE_def ncols_def
        eval_nat_numeral)
qed

end
